theory Spec2Isabelle
  imports Complex_Main "HOL-Library.Sublist"
begin

section \<open>JavaScript strings\<close>

text \<open>
  A JavaScript string is a sequence of UTF-16 code units. The model uses \<open>string\<close>,
  where one \<open>char\<close> stands for one code unit in the range U+0000 .. U+00FF (Latin-1);
  code units from U+0100 on are outside the model. All string operations below are the
  ECMAScript ones restricted to that range.
\<close>

definition apostrophe :: string where
  "apostrophe = [CHR 0x27]"

text \<open>
  ECMAScript \<open>WhiteSpace\<close> and \<open>LineTerminator\<close> code units below U+0100: TAB, LF, VT, FF,
  CR, SP and NBSP. This is the set that \<open>String.prototype.trim\<close> strips and that the
  regular-expression class \<open>\s\<close> matches.
\<close>

definition isWhiteSpace :: "char \<Rightarrow> bool" where
  "isWhiteSpace c \<longleftrightarrow> c \<in> set [CHR 0x09, CHR 0x0A, CHR 0x0B, CHR 0x0C, CHR 0x0D, CHR 0x20, CHR 0xA0]"

definition trim :: "string \<Rightarrow> string" where
  "trim s = rev (dropWhile isWhiteSpace (rev (dropWhile isWhiteSpace s)))"

text \<open>
  \<open>String.prototype.toLowerCase\<close> on Latin-1 code units: A..Z and the capital letters
  U+00C0 .. U+00DE (without the multiplication sign U+00D7) move up by 32, every other code
  unit is its own lower case.
\<close>

definition lowerChar :: "char \<Rightarrow> char" where
  "lowerChar c = (let n = (of_char c :: nat) in
     if (65 \<le> n \<and> n \<le> 90) \<or> (192 \<le> n \<and> n \<le> 222 \<and> n \<noteq> 215)
     then char_of (n + 32) else c)"

definition toLowerCase :: "string \<Rightarrow> string" where
  "toLowerCase s = map lowerChar s"

fun startsWith :: "string \<Rightarrow> string \<Rightarrow> bool" where
  "startsWith s [] = True"
| "startsWith [] (k # ks) = False"
| "startsWith (c # cs) (k # ks) = (c = k \<and> startsWith cs ks)"

text \<open>\<open>s.includes(k)\<close>: \<open>k\<close> occurs in \<open>s\<close> as a contiguous run of code units.\<close>

fun includes_str :: "string \<Rightarrow> string \<Rightarrow> bool" where
  "includes_str [] k = (k = [])"
| "includes_str (c # cs) k = (startsWith (c # cs) k \<or> includes_str cs k)"

section \<open>JSON values\<close>

datatype json =
    JNull
  | JBool bool
  | JNum int
  | JStr string
  | JArr "json list"
  | JObj "(string \<times> json) list"

text \<open>
  A JavaScript value as far as the frontend meets one: \<open>undefined\<close>, or a value that came
  out of \<open>JSON.parse\<close> or is a string of the program. \<open>JNum\<close> carries integers only; no
  modelled code inspects a number.
\<close>

datatype jsvalue = Undefined | Val json

section \<open>HTTP\<close>

text \<open>
  What \<open>fetch\<close> is called with. \<open>body\<close> holds the value handed to \<open>JSON.stringify\<close>, not
  its text.
\<close>

record HttpRequest =
  endpoint :: string
  http_method :: string
  headers :: "(string \<times> string) list"
  body :: json

text \<open>
  What \<open>fetch\<close> settles to. \<open>bodyJson\<close> is the outcome of \<open>response.json()\<close>: \<open>None\<close> when
  that promise rejects because the body is not JSON text. \<open>response.ok\<close> is derived from the
  status as the Fetch standard defines it.
\<close>

record HttpResponse =
  status :: nat
  statusText :: string
  bodyJson :: "json option"

definition ok :: "HttpResponse \<Rightarrow> bool" where
  "ok r \<longleftrightarrow> 200 \<le> status r \<and> status r \<le> 299"

datatype FetchOutcome =
    Rejected string
  | Resolved HttpResponse

text \<open>The exceptions that the modelled code can meet inside its \<open>try\<close> blocks.\<close>

datatype exn =
    FetchFailed string
  | HttpStatusError nat
  | StatusTextError string
  | JsonRejected
  | NullTypeError

text \<open>
  The property read \<open>data.response\<close> on a parsed JSON value: it throws a \<open>TypeError\<close> on
  \<open>null\<close>, finds the entry of an object or \<open>undefined\<close>, and is \<open>undefined\<close> on a boolean,
  a number, a string or an array.
\<close>

fun response_of :: "json \<Rightarrow> exn + jsvalue" where
  "response_of JNull = Inl NullTypeError"
| "response_of (JObj kvs) =
     Inr (case map_of kvs ''response'' of None \<Rightarrow> Undefined | Some v \<Rightarrow> Val v)"
| "response_of (JBool b) = Inr Undefined"
| "response_of (JNum n) = Inr Undefined"
| "response_of (JStr t) = Inr Undefined"
| "response_of (JArr vs) = Inr Undefined"

text \<open>The entry of a JSON object under a key, for reading request bodies.\<close>

fun member :: "json \<Rightarrow> string \<Rightarrow> json option" where
  "member (JObj kvs) k = map_of kvs k"
| "member (JNull) k = None"
| "member (JBool b) k = None"
| "member (JNum n) k = None"
| "member (JStr t) k = None"
| "member (JArr vs) k = None"

datatype ConsoleEntry =
    ConsoleLog string json
  | ConsoleError string exn

section \<open>The declared shape of the reply\<close>









section \<open>The API client module\<close>

text \<open>\<open>types\<close>: \<open>interface ApiResponse { message: string; success: boolean }\<close>. The field
  \<open>message\<close> is filled from \<open>data.response\<close> without a runtime check, so it holds whatever
  JavaScript value was there.\<close>

record ApiResponse =
  message :: jsvalue
  success :: bool

definition API_URL :: string where
  "API_URL = ''http://localhost:8000''"

definition jsonHeaders :: "(string \<times> string) list" where
  "jsonHeaders = [(''Content-Type'', ''application/json'')]"

text \<open>The \<open>fetch\<close> call of \<open>chatWithAgent\<close>.\<close>

definition chatWithAgent_request :: "string \<Rightarrow> HttpRequest" where
  "chatWithAgent_request msg =
    \<lparr>endpoint = API_URL @ ''/chat'', http_method = ''POST'', headers = jsonHeaders,
     body = JObj [(''message'', JStr msg)]\<rparr>"

definition connectionFallback :: string where
  "connectionFallback = ''Sorry, I'' @ apostrophe @ ''m having trouble connecting to the server right now. Please try again later.''"

text \<open>The \<open>try\<close> block of \<open>chatWithAgent\<close> once \<open>fetch\<close> has settled: \<open>Inl\<close> is a throw.\<close>

definition chatWithAgent_try :: "FetchOutcome \<Rightarrow> exn + ApiResponse" where
  "chatWithAgent_try outcome =
    (case outcome of
       Rejected reason \<Rightarrow> Inl (FetchFailed reason)
     | Resolved response \<Rightarrow>
         if \<not> ok response then Inl (StatusTextError (statusText response))
         else (case bodyJson response of
                 None \<Rightarrow> Inl JsonRejected
               | Some data \<Rightarrow>
                   (case response_of data of
                      Inl e \<Rightarrow> Inl e
                    | Inr v \<Rightarrow> Inr \<lparr>message = v, success = True\<rparr>)))"

text \<open>
  \<open>chatWithAgent\<close>: what is written to the console, and what the returned promise settles
  to (\<open>Inl\<close> would be a rejection, \<open>Inr\<close> the value it resolves to).
\<close>

definition chatWithAgent :: "string \<Rightarrow> FetchOutcome \<Rightarrow> ConsoleEntry list \<times> (exn + ApiResponse)" where
  "chatWithAgent msg outcome =
    (case chatWithAgent_try outcome of
       Inr r \<Rightarrow> ([], Inr r)
     | Inl error \<Rightarrow>
         ([ConsoleError ''Error chatting with agent:'' error],
          Inr \<lparr>message = Val (JStr connectionFallback), success = False\<rparr>))"

definition greetingReply :: string where
  "greetingReply = ''Hello! I'' @ apostrophe @ ''m PropertyBot. How can I help you with your property search today?''"

definition propertyReply :: string where
  "propertyReply = ''I can help you find properties based on location, price, number of bedrooms, and more. What are your requirements?''"

definition priceReply :: string where
  "priceReply = ''Properties in our database range from $150,000 to $5,000,000. What'' @ apostrophe @ ''s your budget range?''"

definition locationReply :: string where
  "locationReply = ''We have properties in downtown areas, suburbs, and rural settings. Which area are you interested in?''"

definition defaultReply :: string where
  "defaultReply = ''I'' @ apostrophe @ ''m here to help with your property search. You can ask me about available properties, pricing, locations, or specific features you'' @ apostrophe @ ''re looking for.''"

text \<open>
  \<open>mockChatWithAgent\<close>: the value its promise resolves to. The one-second \<open>setTimeout\<close>
  before the keyword test only delays the result and is not modelled.
\<close>

definition mockChatWithAgent :: "string \<Rightarrow> ApiResponse" where
  "mockChatWithAgent msg =
    (let lowercaseMessage = toLowerCase msg in
     if includes_str lowercaseMessage ''hello'' \<or> includes_str lowercaseMessage ''hi'' then
       \<lparr>message = Val (JStr greetingReply), success = True\<rparr>
     else if includes_str lowercaseMessage ''property'' \<or> includes_str lowercaseMessage ''house''
             \<or> includes_str lowercaseMessage ''apartment'' then
       \<lparr>message = Val (JStr propertyReply), success = True\<rparr>
     else if includes_str lowercaseMessage ''price'' \<or> includes_str lowercaseMessage ''cost''
             \<or> includes_str lowercaseMessage ''budget'' then
       \<lparr>message = Val (JStr priceReply), success = True\<rparr>
     else if includes_str lowercaseMessage ''location'' \<or> includes_str lowercaseMessage ''area''
             \<or> includes_str lowercaseMessage ''where'' then
       \<lparr>message = Val (JStr locationReply), success = True\<rparr>
     else
       \<lparr>message = Val (JStr defaultReply), success = True\<rparr>)"

text \<open>
  The keyword table as the comment on \<open>mockChatWithAgent\<close> describes it (simple keyword
  detection): groups of keywords in the order of the \<open>if\<close> chain, each with its reply. The
  reply for a lowercased message is that of the first group one of whose keywords occurs in
  it, and the default reply when no group matches.
\<close>

definition keywordGroups :: "(string list \<times> string) list" where
  "keywordGroups =
    [([''hello'', ''hi''], greetingReply),
     ([''property'', ''house'', ''apartment''], propertyReply),
     ([''price'', ''cost'', ''budget''], priceReply),
     ([''location'', ''area'', ''where''], locationReply)]"

definition firstMatchingReply :: "string \<Rightarrow> string" where
  "firstMatchingReply lowercased =
    (case find (\<lambda>(keywords, reply). list_ex (includes_str lowercased) keywords) keywordGroups of
       Some (keywords, reply) \<Rightarrow> reply
     | None \<Rightarrow> defaultReply)"

section \<open>The chat widget\<close>

datatype Role = User | Assistant

text \<open>
  \<open>interface ChatMessage { id; content; role; timestamp }\<close>. \<open>content\<close> is declared a string;
  the assistant's is taken from \<open>data.response\<close> without a runtime check, so the field holds
  a JavaScript value. A \<open>Date\<close> is its time value in milliseconds.
\<close>

record ChatMessage =
  id_msg :: string
  content :: jsvalue
  role :: Role
  timestamp :: nat

record Toast =
  title :: string
  description :: string
  variant :: string

text \<open>
  The state of one mounted \<open>ChatWidget\<close>: its four \<open>useState\<close> cells, and what it has sent
  to the world so far (toasts shown, console entries, \<open>fetch\<close> calls), oldest first.
\<close>

record Widget =
  messages :: "ChatMessage list"
  inputValue :: string
  isLoading :: bool
  threadId :: "string option"
  toasts :: "Toast list"
  console :: "ConsoleEntry list"
  requests :: "HttpRequest list"

definition welcomeMessage :: "nat \<Rightarrow> ChatMessage" where
  "welcomeMessage now =
    \<lparr>id_msg = ''welcome-message'',
     content = Val (JStr (''Hello! I'' @ apostrophe @ ''m PropertyBot. How can I help you find your dream property today?'')),
     role = Assistant, timestamp = now\<rparr>"

text \<open>The state at mount; \<open>now\<close> is the \<open>new Date()\<close> of the welcome message.\<close>

definition ChatWidget_init :: "nat \<Rightarrow> Widget" where
  "ChatWidget_init now =
    \<lparr>messages = [welcomeMessage now], inputValue = [], isLoading = False, threadId = None,
     toasts = [], console = [], requests = []\<rparr>"

text \<open>\<open>!threadId\<close>: true of \<open>null\<close> and of the empty string.\<close>

definition noThreadId :: "string option \<Rightarrow> bool" where
  "noThreadId t \<longleftrightarrow> (case t of None \<Rightarrow> True | Some v \<Rightarrow> v = [])"

text \<open>
  The effect of lines 56 to 64, as far as it touches the state: \<open>uuid\<close> is what \<open>uuidv4()\<close>
  returns when it is called. The scrolling is not modelled.
\<close>

definition useEffect_threadId :: "string \<Rightarrow> Widget \<Rightarrow> Widget" where
  "useEffect_threadId uuid s = (if noThreadId (threadId s) then s\<lparr>threadId := Some uuid\<rparr> else s)"

definition inquiryUrl :: string where
  "inquiryUrl = ''http://localhost:8000/api/property/inquiry''"

definition inquiryRequest :: "string \<Rightarrow> string \<Rightarrow> HttpRequest" where
  "inquiryRequest query tid =
    \<lparr>endpoint = inquiryUrl, http_method = ''POST'', headers = jsonHeaders,
     body = JObj [(''query'', JStr query), (''thread_id'', JStr tid)]\<rparr>"

text \<open>
  \<open>handleSendMessage\<close> up to its first \<open>await\<close> (lines 126 to 146): the guard, the user
  message appended, the input cleared, the loading flag raised and \<open>fetch\<close> called.
  \<open>uuid\<close> and \<open>now\<close> are the results of \<open>uuidv4()\<close> and \<open>new Date()\<close>.
\<close>

definition handleSendMessage_begin :: "string \<Rightarrow> nat \<Rightarrow> Widget \<Rightarrow> Widget" where
  "handleSendMessage_begin uuid now s =
    (if trim (inputValue s) = [] \<or> noThreadId (threadId s) then s
     else
       (case threadId s of
          None \<Rightarrow> s
        | Some tid \<Rightarrow>
            let userMessage = \<lparr>id_msg = uuid, content = Val (JStr (inputValue s)), role = User,
                                 timestamp = now\<rparr>
            in s\<lparr>messages := messages s @ [userMessage],
                 inputValue := [],
                 isLoading := True,
                 requests := requests s @ [inquiryRequest (inputValue s) tid]\<rparr>))"

definition connectionToast :: Toast where
  "connectionToast =
    \<lparr>title = ''Error'',
     description = ''Failed to connect to the property agent. Please try again.'',
     variant = ''destructive''\<rparr>"

text \<open>The \<open>catch\<close> block of \<open>handleSendMessage\<close> (lines 163 to 169).\<close>

definition handleSendMessage_catch :: "exn \<Rightarrow> Widget \<Rightarrow> Widget" where
  "handleSendMessage_catch error s =
    s\<lparr>console := console s @ [ConsoleError ''API Error:'' error],
      toasts := toasts s @ [connectionToast]\<rparr>"

text \<open>
  \<open>handleSendMessage\<close> from the moment \<open>fetch\<close> settles (lines 148 to 172): the status
  check, the body read, the assistant message appended through the updater
  \<open>(prev) => [...prev, botMessage]\<close>, the \<open>catch\<close> block for every throw, and the \<open>finally\<close>.
\<close>

definition handleSendMessage_settle :: "FetchOutcome \<Rightarrow> string \<Rightarrow> nat \<Rightarrow> Widget \<Rightarrow> Widget" where
  "handleSendMessage_settle outcome uuid now s =
    (let s' =
       (case outcome of
          Rejected reason \<Rightarrow> handleSendMessage_catch (FetchFailed reason) s
        | Resolved response \<Rightarrow>
            if \<not> ok response then handleSendMessage_catch (HttpStatusError (status response)) s
            else (case bodyJson response of
                    None \<Rightarrow> handleSendMessage_catch JsonRejected s
                  | Some data \<Rightarrow>
                      let s1 = s\<lparr>console := console s @ [ConsoleLog ''API Response:'' data]\<rparr>
                      in (case response_of data of
                            Inl e \<Rightarrow> handleSendMessage_catch e s1
                          | Inr v \<Rightarrow>
                              let botMessage = \<lparr>id_msg = uuid, content = v, role = Assistant,
                                                  timestamp = now\<rparr>
                              in s1\<lparr>messages := messages s1 @ [botMessage]\<rparr>)))
     in s'\<lparr>isLoading := False\<rparr>)"

text \<open>
  One whole call of \<open>handleSendMessage\<close> with nothing else happening while the request is in
  flight: \<open>uuid1\<close>, \<open>now1\<close> belong to the user message and \<open>uuid2\<close>, \<open>now2\<close> to the assistant's.
\<close>

definition handleSendMessage ::
  "FetchOutcome \<Rightarrow> string \<Rightarrow> nat \<Rightarrow> string \<Rightarrow> nat \<Rightarrow> Widget \<Rightarrow> Widget" where
  "handleSendMessage outcome uuid1 now1 uuid2 now2 s =
    (if trim (inputValue s) = [] \<or> noThreadId (threadId s) then s
     else handleSendMessage_settle outcome uuid2 now2 (handleSendMessage_begin uuid1 now1 s))"

text \<open>\<open>handleKeyDown\<close>: Enter without Shift sends.\<close>

definition handleKeyDown :: "string \<Rightarrow> bool \<Rightarrow> string \<Rightarrow> nat \<Rightarrow> Widget \<Rightarrow> Widget" where
  "handleKeyDown key shiftKey uuid now s =
    (if key = ''Enter'' \<and> \<not> shiftKey then handleSendMessage_begin uuid now s else s)"

text \<open>
  Everything that can happen to a mounted widget: the effect runs, the input's \<open>onChange\<close>
  fires, the button is clicked, a key goes down in the input, or a pending \<open>fetch\<close> settles.
  Each event carries the values the environment supplies (fresh uuid, current time, the
  outcome of the request). The \<open>disabled\<close> attributes of the input and the button only
  remove events; the model allows every event in every state.
\<close>

datatype Event =
    EffectRun string
  | Change string
  | Click string nat
  | KeyDown string bool string nat
  | FetchSettled FetchOutcome string nat

fun step :: "Event \<Rightarrow> Widget \<Rightarrow> Widget" where
  "step (EffectRun uuid) s = useEffect_threadId uuid s"
| "step (Change v) s = s\<lparr>inputValue := v\<rparr>"
| "step (Click uuid now) s = handleSendMessage_begin uuid now s"
| "step (KeyDown key shiftKey uuid now) s = handleKeyDown key shiftKey uuid now s"
| "step (FetchSettled outcome uuid now) s = handleSendMessage_settle outcome uuid now s"

fun run :: "Event list \<Rightarrow> Widget \<Rightarrow> Widget" where
  "run [] s = s"
| "run (e # es) s = run es (step e s)"

text \<open>
  Hypotheses about the environment and views of the state, used to state properties.
  \<open>freshUuids\<close>: every \<open>uuidv4()\<close> result in a run is a non-empty string (a real one has
  36 characters). \<open>requestFailed\<close>: the request met a network error or a non-ok status.
  \<open>visible\<close>: the state without the console (it is the state, not what is drawn).
\<close>

definition freshUuids :: "Event list \<Rightarrow> bool" where
  "freshUuids es = list_all (\<lambda>e. case e of EffectRun uuid \<Rightarrow> uuid \<noteq> [] | _ \<Rightarrow> True) es"

definition requestFailed :: "FetchOutcome \<Rightarrow> bool" where
  "requestFailed outcome \<longleftrightarrow>
    (case outcome of Rejected reason \<Rightarrow> True | Resolved response \<Rightarrow> \<not> ok response)"


text \<open>
  The invariant of a session: before the thread id is assigned nothing has been sent, and
  afterwards the id is non-empty and every request sent carries it.
\<close>

definition session_inv :: "Widget \<Rightarrow> bool" where
  "session_inv s \<longleftrightarrow>
    (case threadId s of
       None \<Rightarrow> requests s = []
     | Some tid \<Rightarrow>
         tid \<noteq> [] \<and> (\<forall>r\<in>set (requests s). member (body r) ''thread_id'' = Some (JStr tid)))"

section \<open>Link rewriting in formatMessage\<close>

text \<open>
  The two regular expressions of \<open>formatMessage\<close> are matched without backtracking: in
  each of them every repetition of a character class is followed by a literal character
  outside that class (\<open>[^\]]+\<close> by \<open>]\<close>, \<open>[^)]+\<close> by \<open>)\<close>, \<open>\s+\<close> by \<open>h\<close>, \<open>[^"]+\<close> by
  \<open>"\<close>, \<open>[^>]*\<close> by \<open>>\<close>, \<open>[^<]+\<close> by \<open><\<close>), so the longest run is the only one after
  which the rest of the pattern can match. \<open>matchLit lit s\<close> consumes the literal \<open>lit\<close> at
  the start of \<open>s\<close>; \<open>notChar d\<close> is the class \<open>[^d]\<close>.
\<close>

definition matchLit :: "string \<Rightarrow> string \<Rightarrow> string option" where
  "matchLit lit s = (if startsWith s lit then Some (drop (length lit) s) else None)"

definition notChar :: "char \<Rightarrow> char \<Rightarrow> bool" where
  "notChar d c \<longleftrightarrow> c \<noteq> d"

text \<open>
  \<open>/\[([^\]]+)\]\(([^)]+)\)/\<close> at the start of \<open>s\<close>: the two groups (text, url) and what
  follows the match.
\<close>

definition matchMarkdownLink :: "string \<Rightarrow> (string \<times> string \<times> string) option" where
  "matchMarkdownLink s =
    (case matchLit ''['' s of
       None \<Rightarrow> None
     | Some r1 \<Rightarrow>
         let text = takeWhile (notChar CHR '']'') r1 in
         if text = [] then None
         else (case matchLit '']('' (dropWhile (notChar CHR '']'') r1) of
                 None \<Rightarrow> None
               | Some r2 \<Rightarrow>
                   let url = takeWhile (notChar CHR '')'') r2 in
                   if url = [] then None
                   else (case matchLit '')'' (dropWhile (notChar CHR '')'') r2) of
                           None \<Rightarrow> None
                         | Some rest \<Rightarrow> Some (text, url, rest))))"

text \<open>The replacement of the first \<open>replace\<close> and of the second.\<close>

definition anchor :: "string \<Rightarrow> string \<Rightarrow> string" where
  \<open>anchor text url =
     ''<a href="'' @ url @ ''" target="_blank" rel="noopener noreferrer">'' @ text @ ''</a>''\<close>

definition markdownLink :: "string \<Rightarrow> string \<Rightarrow> string" where
  "markdownLink text url = ''['' @ text @ '']('' @ url @ '')''"

text \<open>
  \<open>content.replace(/.../g, ...)\<close> with the first expression: scan from the left, replace
  the leftmost match, go on behind it.
\<close>

function replaceMarkdownLinks :: "string \<Rightarrow> string" where
  "replaceMarkdownLinks [] = []"
| "replaceMarkdownLinks (c # cs) =
     (case matchMarkdownLink (c # cs) of
        Some (text, url, rest) \<Rightarrow> anchor text url @ replaceMarkdownLinks rest
      | None \<Rightarrow> c # replaceMarkdownLinks cs)"
  by pat_completeness auto
termination
proof (relation "measure length")
  show "wf (measure length)" by simp
next
  fix c cs x t y u rest
  assume m: "matchMarkdownLink (c # cs) = Some x" and "(t, y) = x" and "(u, rest) = y"
  have lit: "length r \<le> length s" if "matchLit l s = Some r" for l s r
    using that by (auto simp: matchLit_def split: if_splits)
  have dw: "length (dropWhile P s) \<le> length s" for P and s :: string
    by (rule length_dropWhile_le)
  from m \<open>(t, y) = x\<close> \<open>(u, rest) = y\<close>
  have "matchMarkdownLink (c # cs) = Some (t, u, rest)" by simp
  then obtain r1 r2 where
    a: "matchLit ''['' (c # cs) = Some r1"
    and b: "matchLit '']('' (dropWhile (notChar CHR '']'') r1) = Some r2"
    and d: "matchLit '')'' (dropWhile (notChar CHR '')'') r2) = Some rest"
    by (auto simp: matchMarkdownLink_def Let_def split: option.splits if_splits)
  from a have "length r1 < length (c # cs)"
    by (auto simp: matchLit_def split: if_splits)
  moreover from lit [OF b] dw [of "notChar CHR '']''" r1] have "length r2 \<le> length r1" by simp
  moreover from lit [OF d] dw [of "notChar CHR '')''" r2] have "length rest \<le> length r2" by simp
  ultimately show "(rest, c # cs) \<in> measure length" by simp
qed simp

text \<open>The (text, url) pairs of the matches that this scan replaces, in order.\<close>

function markdownLinks :: "string \<Rightarrow> (string \<times> string) list" where
  "markdownLinks [] = []"
| "markdownLinks (c # cs) =
     (case matchMarkdownLink (c # cs) of
        Some (text, url, rest) \<Rightarrow> (text, url) # markdownLinks rest
      | None \<Rightarrow> markdownLinks cs)"
  by pat_completeness auto
termination
proof (relation "measure length")
  show "wf (measure length)" by simp
next
  fix c cs x t y u rest
  assume m: "matchMarkdownLink (c # cs) = Some x" and "(t, y) = x" and "(u, rest) = y"
  have lit: "length r \<le> length s" if "matchLit l s = Some r" for l s r
    using that by (auto simp: matchLit_def split: if_splits)
  have dw: "length (dropWhile P s) \<le> length s" for P and s :: string
    by (rule length_dropWhile_le)
  from m \<open>(t, y) = x\<close> \<open>(u, rest) = y\<close>
  have "matchMarkdownLink (c # cs) = Some (t, u, rest)" by simp
  then obtain r1 r2 where
    a: "matchLit ''['' (c # cs) = Some r1"
    and b: "matchLit '']('' (dropWhile (notChar CHR '']'') r1) = Some r2"
    and d: "matchLit '')'' (dropWhile (notChar CHR '')'') r2) = Some rest"
    by (auto simp: matchMarkdownLink_def Let_def split: option.splits if_splits)
  from a have "length r1 < length (c # cs)"
    by (auto simp: matchLit_def split: if_splits)
  moreover from lit [OF b] dw [of "notChar CHR '']''" r1] have "length r2 \<le> length r1" by simp
  moreover from lit [OF d] dw [of "notChar CHR '')''" r2] have "length rest \<le> length r2" by simp
  ultimately show "(rest, c # cs) \<in> measure length" by simp
qed simp

text \<open>
  \<open>/<a\s+href="([^"]+)"[^>]*>([^<]+)<\/a>/\<close> at the start of \<open>s\<close>: the two groups
  (url, text) and what follows the match.
\<close>

definition matchHtmlAnchor :: "string \<Rightarrow> (string \<times> string \<times> string) option" where
  \<open>matchHtmlAnchor s =
    (case matchLit ''<a'' s of
       None \<Rightarrow> None
     | Some r1 \<Rightarrow>
         if takeWhile isWhiteSpace r1 = [] then None
         else (case matchLit ''href="'' (dropWhile isWhiteSpace r1) of
                 None \<Rightarrow> None
               | Some r2 \<Rightarrow>
                   let url = takeWhile (notChar CHR 0x22) r2 in
                   if url = [] then None
                   else (case matchLit ''"'' (dropWhile (notChar CHR 0x22) r2) of
                           None \<Rightarrow> None
                         | Some r3 \<Rightarrow>
                             (case matchLit ''>'' (dropWhile (notChar CHR ''>'') r3) of
                                None \<Rightarrow> None
                              | Some r4 \<Rightarrow>
                                  let text = takeWhile (notChar CHR ''<'') r4 in
                                  if text = [] then None
                                  else (case matchLit ''</a>'' (dropWhile (notChar CHR ''<'') r4) of
                                          None \<Rightarrow> None
                                        | Some rest \<Rightarrow> Some (url, text, rest))))))\<close>

function replaceHtmlAnchors :: "string \<Rightarrow> string" where
  "replaceHtmlAnchors [] = []"
| "replaceHtmlAnchors (c # cs) =
     (case matchHtmlAnchor (c # cs) of
        Some (url, text, rest) \<Rightarrow> markdownLink text url @ replaceHtmlAnchors rest
      | None \<Rightarrow> c # replaceHtmlAnchors cs)"
  by pat_completeness auto
termination
proof (relation "measure length")
  show "wf (measure length)" by simp
next
  fix c cs x u y t rest
  assume m: "matchHtmlAnchor (c # cs) = Some x" and "(u, y) = x" and "(t, rest) = y"
  have lit: "length r \<le> length s" if "matchLit l s = Some r" for l s r
    using that by (auto simp: matchLit_def split: if_splits)
  have dw: "length (dropWhile P s) \<le> length s" for P and s :: string
    by (rule length_dropWhile_le)
  from m \<open>(u, y) = x\<close> \<open>(t, rest) = y\<close>
  have "matchHtmlAnchor (c # cs) = Some (u, t, rest)" by simp
  then obtain r1 r2 r3 r4 where
    a: "matchLit ''<a'' (c # cs) = Some r1"
    and b: "matchLit (''href='' @ [CHR 0x22]) (dropWhile isWhiteSpace r1) = Some r2"
    and d: "matchLit [CHR 0x22] (dropWhile (notChar CHR 0x22) r2) = Some r3"
    and e: "matchLit ''>'' (dropWhile (notChar CHR ''>'') r3) = Some r4"
    and f: "matchLit ''</a>'' (dropWhile (notChar CHR ''<'') r4) = Some rest"
    by (auto simp: matchHtmlAnchor_def Let_def split: option.splits if_splits)
  from a have "length r1 < length (c # cs)"
    by (auto simp: matchLit_def split: if_splits)
  moreover from lit [OF b] dw [of isWhiteSpace r1] have "length r2 \<le> length r1" by simp
  moreover from lit [OF d] dw [of "notChar CHR 0x22" r2] have "length r3 \<le> length r2" by simp
  moreover from lit [OF e] dw [of "notChar CHR ''>''" r3] have "length r4 \<le> length r3" by simp
  moreover from lit [OF f] dw [of "notChar CHR ''<''" r4] have "length rest \<le> length r4" by simp
  ultimately show "(rest, c # cs) \<in> measure length" by simp
qed simp

text \<open>\<open>finalContent\<close> of \<open>formatMessage\<close>: the string handed to the markdown renderer.\<close>

definition finalContent :: "string \<Rightarrow> string" where
  "finalContent msgContent = replaceHtmlAnchors (replaceMarkdownLinks msgContent)"




section \<open>The Similarity Retriever\<close>

text \<open>
  Modelled from the spec: the Similarity Retriever is backend code, which is not among the
  sources; only the frontend that calls the backend is. \<open>RetrievalResult\<close> is the record
  of section 3: matches in rank order with their scores in [0,1], and \<open>hit\<close>.
\<close>

record 'p RetrievalResult =
  matches :: "('p \<times> real) list"
  hit :: bool

text \<open>
  Modelled from the spec: \<open>retrieve(intent, k)\<close> of section 4.2, the backend's retriever,
  absent from the sources. The structured filters and the similarity of a record to the
  intent are provider details and are parameters; the corpus is listed in insertion order.
  Candidates are filtered first, ranked by falling score (the sort is stable, so equal
  scores stay in insertion order) and cut to the top \<open>k\<close>. \<open>hit\<close> is set the way the data
  model words it: at least one match clears the configured relevance threshold.
\<close>

definition retrieve ::
  "real \<Rightarrow> ('q \<Rightarrow> 'p \<Rightarrow> bool) \<Rightarrow> ('q \<Rightarrow> 'p \<Rightarrow> real) \<Rightarrow> 'p list \<Rightarrow> 'q \<Rightarrow> nat
     \<Rightarrow> 'p RetrievalResult" where
  "retrieve relevance_threshold passes_filters similarity corpus intent k =
    (let candidates = map (\<lambda>p. (p, similarity intent p)) (filter (passes_filters intent) corpus);
         ranked = sort_key (\<lambda>(p, score). - score) candidates;
         top_k = take k ranked
     in \<lparr>matches = top_k,
         hit = list_ex (\<lambda>(p, score). relevance_threshold \<le> score) top_k\<rparr>)"

section \<open>The Workflow Orchestrator\<close>

text \<open>
  Modelled from the spec: the states of the orchestrator of section 4.5, backend code that
  is not among the sources.
\<close>

datatype Phase =
    RECEIVED | CLASSIFIED | RETRIEVED | WEB_RESEARCHED | SKIPPED
  | SYNTHESIZED | PERSISTED | DONE | FAILED

text \<open>
  Modelled from the spec: \<open>ClassificationError\<close> of sections 4.1 and 7, raised by the
  Query Classifier (absent from the sources) on empty or unparseable input.
\<close>

datatype ClassificationError = ClassificationError

text \<open>
  Modelled from the spec: \<open>ResearchUnavailable\<close> of sections 4.3 and 7, signalled by the
  Web Research Agent (absent from the sources) when all attempted sources fail.
\<close>

datatype ResearchUnavailable = ResearchUnavailable

text \<open>
  Modelled from the spec: the \<open>evidence_used\<close> flags of \<open>AgentResponse\<close> (section 3), part of
  the backend's reply record, which is absent from the sources.
\<close>

record EvidenceUsed =
  retrieval :: bool
  web_search :: bool

text \<open>Modelled from the spec: \<open>AgentResponse\<close> of section 3, the backend's reply record.\<close>

record AgentResponse =
  response_text :: string
  cited_properties :: "string list"
  evidence_used :: EvidenceUsed

text \<open>
  Modelled from the spec: the collaborators of one turn (sections 4.1 to 4.4 and 6), all
  absent from the sources and taken as parameters: the classifier, the test whether an
  intent has a need the corpus schema cannot answer, the retriever, the Web Research Agent
  (which signals \<open>ResearchUnavailable\<close> or returns its evidence, possibly none), and the
  language model's phrasing and citations. Failures of the retriever, of the language
  model and of persistence are not modelled.
\<close>

record ('i, 'p, 'e) Collaborators =
  classify :: "string \<Rightarrow> 'i option \<Rightarrow> ClassificationError + 'i"
  out_of_schema :: "'i \<Rightarrow> bool"
  retriever :: "'i \<Rightarrow> 'p RetrievalResult"
  research :: "'i \<Rightarrow> 'p RetrievalResult \<Rightarrow> ResearchUnavailable + 'e list"
  complete :: "'i \<Rightarrow> 'p RetrievalResult \<Rightarrow> 'e list \<Rightarrow> string"
  cite :: "'i \<Rightarrow> 'p RetrievalResult \<Rightarrow> 'e list \<Rightarrow> string list"

text \<open>Modelled from the spec: what the orchestrator holds during one turn (section 4.5).\<close>

record ('i, 'p, 'e) Turn =
  phase :: Phase
  raw_query :: string
  prior_intent :: "'i option"
  intent :: "'i option"
  retrieved :: "'p RetrievalResult option"
  web_evidence :: "'e list"
  answer :: "AgentResponse option"

text \<open>
  Modelled from the spec: the sentence with which a response notes that web research
  brought nothing (sections 4.3 and 8 ask for the limitation to be stated; the wording is
  free), and the clarification request that answers a \<open>ClassificationError\<close>.
\<close>

definition limitationNotice :: string where
  "limitationNotice = '' (No additional web information could be found for this request.)''"

text \<open>
  Modelled from the spec: the clarification-request response of section 4.5, built by the
  absent orchestrator on a \<open>ClassificationError\<close>; the wording is free.
\<close>

definition clarificationRequest :: AgentResponse where
  "clarificationRequest =
    \<lparr>response_text = ''Could you please rephrase your question?'', cited_properties = [],
     evidence_used = \<lparr>retrieval = False, web_search = False\<rparr>\<rparr>"

text \<open>
  Modelled from the spec: \<open>synthesize\<close> of section 4.4, absent from the sources. The
  phrasing and the citations come from the language model; \<open>evidence_used\<close> is a function
  of the retrieval result and the web evidence alone (the deterministic structure
  requirement): \<open>web_search\<close> says that web evidence informed the answer, and an answer
  after a research step that brought no evidence states the limitation.
\<close>

definition synthesize ::
  "('i, 'p, 'e) Collaborators \<Rightarrow> 'i \<Rightarrow> 'p RetrievalResult \<Rightarrow> 'e list \<Rightarrow> bool \<Rightarrow> AgentResponse" where
  "synthesize C i r evidence researched =
    \<lparr>response_text =
       complete C i r evidence @ (if researched \<and> evidence = [] then limitationNotice else []),
     cited_properties = cite C i r evidence,
     evidence_used = \<lparr>retrieval = (matches r \<noteq> []), web_search = (evidence \<noteq> [])\<rparr>\<rparr>"

text \<open>
  Modelled from the spec: what "the response states the limitation" (section 8) means for a
  response of the absent synthesizer: its text contains the limitation notice.
\<close>

definition statesLimitation :: "AgentResponse \<Rightarrow> bool" where
  "statesLimitation a \<longleftrightarrow> includes_str (response_text a) limitationNotice"

text \<open>Modelled from the spec: a turn as it is received (section 4.5, state RECEIVED).\<close>

definition start_turn :: "string \<Rightarrow> 'i option \<Rightarrow> ('i, 'p, 'e) Turn" where
  "start_turn q prior =
    \<lparr>phase = RECEIVED, raw_query = q, prior_intent = prior, intent = None, retrieved = None,
     web_evidence = [], answer = None\<rparr>"

text \<open>
  Modelled from the spec: one transition of the state machine of section 4.5, absent from
  the sources. A \<open>ClassificationError\<close> routes to SYNTHESIZED with a clarification request;
  RETRIEVED goes to WEB_RESEARCHED iff the retrieval missed or the intent has an
  out-of-schema need, and to SKIPPED otherwise; \<open>ResearchUnavailable\<close> leaves the turn with
  no web evidence; a state whose inputs are missing goes to FAILED.
\<close>

definition advance :: "('i, 'p, 'e) Collaborators \<Rightarrow> ('i, 'p, 'e) Turn \<Rightarrow> ('i, 'p, 'e) Turn" where
  "advance C t =
    (case phase t of
       RECEIVED \<Rightarrow>
         (case classify C (raw_query t) (prior_intent t) of
            Inl err \<Rightarrow> t\<lparr>phase := SYNTHESIZED, answer := Some clarificationRequest\<rparr>
          | Inr i \<Rightarrow> t\<lparr>phase := CLASSIFIED, intent := Some i\<rparr>)
     | CLASSIFIED \<Rightarrow>
         (case intent t of
            None \<Rightarrow> t\<lparr>phase := FAILED\<rparr>
          | Some i \<Rightarrow> t\<lparr>phase := RETRIEVED, retrieved := Some (retriever C i)\<rparr>)
     | RETRIEVED \<Rightarrow>
         (case (intent t, retrieved t) of
            (Some i, Some r) \<Rightarrow>
              if \<not> hit r \<or> out_of_schema C i then
                t\<lparr>phase := WEB_RESEARCHED,
                  web_evidence := (case research C i r of Inl err \<Rightarrow> [] | Inr found \<Rightarrow> found)\<rparr>
              else t\<lparr>phase := SKIPPED\<rparr>
          | _ \<Rightarrow> t\<lparr>phase := FAILED\<rparr>)
     | WEB_RESEARCHED \<Rightarrow>
         (case (intent t, retrieved t) of
            (Some i, Some r) \<Rightarrow>
              t\<lparr>phase := SYNTHESIZED, answer := Some (synthesize C i r (web_evidence t) True)\<rparr>
          | _ \<Rightarrow> t\<lparr>phase := FAILED\<rparr>)
     | SKIPPED \<Rightarrow>
         (case (intent t, retrieved t) of
            (Some i, Some r) \<Rightarrow>
              t\<lparr>phase := SYNTHESIZED, answer := Some (synthesize C i r (web_evidence t) False)\<rparr>
          | _ \<Rightarrow> t\<lparr>phase := FAILED\<rparr>)
     | SYNTHESIZED \<Rightarrow> t\<lparr>phase := PERSISTED\<rparr>
     | PERSISTED \<Rightarrow> t\<lparr>phase := DONE\<rparr>
     | DONE \<Rightarrow> t
     | FAILED \<Rightarrow> t)"

text \<open>
  Modelled from the spec: the states a turn of the absent orchestrator passes through in
  \<open>n\<close> transitions (section 4.5); six are the longest path from RECEIVED to DONE.
\<close>

fun history :: "('i, 'p, 'e) Collaborators \<Rightarrow> nat \<Rightarrow> ('i, 'p, 'e) Turn \<Rightarrow> ('i, 'p, 'e) Turn list" where
  "history C 0 t = [t]"
| "history C (Suc n) t = t # history C n (advance C t)"

text \<open>
  Modelled from the spec: the run of the absent orchestrator on one inbound query, from
  RECEIVED through six transitions.
\<close>

definition run_turn ::
  "('i, 'p, 'e) Collaborators \<Rightarrow> string \<Rightarrow> 'i option \<Rightarrow> ('i, 'p, 'e) Turn list" where
  "run_turn C q prior = history C 6 (start_turn q prior)"

section \<open>Example inputs\<close>

text \<open>
  Collaborators for one example turn: the classifier accepts every non-empty query, the
  retriever returns one match and reports \<open>found\<close> as its hit flag, and the Web Research
  Agent answers \<open>web\<close>. A similarity for an example corpus of four records.
\<close>

definition exampleCollaborators :: "bool \<Rightarrow> ResearchUnavailable + string list \<Rightarrow> (nat, nat, string) Collaborators" where
  "exampleCollaborators found web =
    \<lparr>classify = (\<lambda>q prior. if q = [] then Inl ClassificationError else Inr 0),
     out_of_schema = (\<lambda>i. False),
     retriever = (\<lambda>i. \<lparr>matches = [(1, 4 / 5)], hit = found\<rparr>),
     research = (\<lambda>i r. web),
     complete = (\<lambda>i r evidence. ''River Park is a condo in Bangsar South.''),
     cite = (\<lambda>i r evidence. [''p1''])\<rparr>"

definition exampleSimilarity :: "unit \<Rightarrow> nat \<Rightarrow> real" where
  "exampleSimilarity q p =
    (if p = 1 then 1 / 2 else if p = 2 then 3 / 4 else if p = 3 then 9 / 10 else 3 / 5)"

section \<open>Facts about strings\<close>

lemma startsWith_iff_prefix: "startsWith s k \<longleftrightarrow> prefix k s"
  by (induction s k rule: startsWith.induct) auto

lemma includes_str_iff_sublist: "includes_str s k \<longleftrightarrow> sublist k s"
proof (induction s)
  case Nil
  then show ?case by simp
next
  case (Cons c cs)
  then show ?case
    by (simp add: startsWith_iff_prefix sublist_Cons_right)
qed

lemma includes_str_map:
  assumes "includes_str s k"
  shows "includes_str (map f s) (map f k)"
proof -
  from assms obtain ps ss where "s = ps @ k @ ss"
    unfolding includes_str_iff_sublist sublist_def by blast
  then have "map f s = map f ps @ map f k @ map f ss"
    by simp
  then show ?thesis
    unfolding includes_str_iff_sublist sublist_def by blast
qed

lemma lower_hello: "toLowerCase ''hello'' = ''hello''"
  by code_simp

lemma includes_hello_lower:
  "includes_str msg ''hello'' \<Longrightarrow> includes_str (toLowerCase msg) ''hello''"
  using includes_str_map [of msg "''hello''" lowerChar] lower_hello
  by (simp add: toLowerCase_def)

lemma dropWhile_all_Nil:
  assumes "\<forall>c\<in>set (dropWhile P xs). P c"
  shows "dropWhile P xs = []"
proof (rule ccontr)
  assume ne: "dropWhile P xs \<noteq> []"
  then have "\<not> P (hd (dropWhile P xs))" by (rule hd_dropWhile)
  moreover from ne have "hd (dropWhile P xs) \<in> set (dropWhile P xs)" by (rule hd_in_set)
  ultimately show False using assms by blast
qed

lemma trim_empty_iff: "trim s = [] \<longleftrightarrow> (\<forall>c\<in>set s. isWhiteSpace c)"
proof
  assume "trim s = []"
  then have "\<forall>c\<in>set (dropWhile isWhiteSpace s). isWhiteSpace c"
    by (simp add: trim_def dropWhile_eq_Nil_conv)
  then have "dropWhile isWhiteSpace s = []" by (rule dropWhile_all_Nil)
  then show "\<forall>c\<in>set s. isWhiteSpace c" by (simp add: dropWhile_eq_Nil_conv)
next
  assume "\<forall>c\<in>set s. isWhiteSpace c"
  then have d: "dropWhile isWhiteSpace s = []" by (simp add: dropWhile_eq_Nil_conv)
  show "trim s = []" unfolding trim_def d by simp
qed

lemma includes_str_suffix: "includes_str r k \<Longrightarrow> includes_str (p @ r) k"
  unfolding includes_str_iff_sublist sublist_def by (metis append.assoc)

lemma includes_str_append_right: "includes_str (a @ b) b"
  unfolding includes_str_iff_sublist sublist_def by (metis append_Nil2)

section \<open>Facts about the widget\<close>

lemma settle_messages:
  "messages (handleSendMessage_settle outcome uuid now s) = messages s
   \<or> (\<exists>m. messages (handleSendMessage_settle outcome uuid now s) = messages s @ [m])"
  by (simp add: handleSendMessage_settle_def handleSendMessage_catch_def Let_def
      split: FetchOutcome.splits option.splits sum.splits)

lemma begin_messages:
  "messages (handleSendMessage_begin uuid now s) = messages s
   \<or> (\<exists>m. messages (handleSendMessage_begin uuid now s) = messages s @ [m])"
  by (simp add: handleSendMessage_begin_def Let_def split: option.splits)

lemma step_messages:
  "messages (step e s) = messages s \<or> (\<exists>m. messages (step e s) = messages s @ [m])"
proof (cases e)
  case (EffectRun u)
  then show ?thesis by (simp add: useEffect_threadId_def)
next
  case (Change v)
  then show ?thesis by simp
next
  case (Click u n)
  then show ?thesis using begin_messages [of u n s] by simp
next
  case (KeyDown k sh u n)
  then show ?thesis using begin_messages [of u n s] by (simp add: handleKeyDown_def)
next
  case (FetchSettled out u n)
  then show ?thesis using settle_messages [of out u n s] by simp
qed

lemma run_messages_prefix: "prefix (messages s) (messages (run es s))"
proof (induction es arbitrary: s)
  case Nil
  then show ?case by simp
next
  case (Cons e es)
  have "prefix (messages s) (messages (step e s))"
    using step_messages [of e s] by auto
  also have "prefix (messages (step e s)) (messages (run es (step e s)))"
    by (rule Cons.IH)
  finally show ?case by simp
qed

lemma begin_requests:
  "requests (handleSendMessage_begin uuid now s) =
     (if trim (inputValue s) = [] \<or> noThreadId (threadId s) then requests s
      else requests s @
        [inquiryRequest (inputValue s) (case threadId s of Some tid \<Rightarrow> tid | None \<Rightarrow> [])])"
  by (simp add: handleSendMessage_begin_def noThreadId_def Let_def split: option.splits)

lemma settle_frame:
  "threadId (handleSendMessage_settle out u n s) = threadId s
   \<and> requests (handleSendMessage_settle out u n s) = requests s"
  by (simp add: handleSendMessage_settle_def handleSendMessage_catch_def Let_def
      split: FetchOutcome.splits option.splits sum.splits)

lemma settle_toasts:
  "toasts (handleSendMessage_settle out u n s) = toasts s
   \<or> toasts (handleSendMessage_settle out u n s) = toasts s @ [connectionToast]"
  by (simp add: handleSendMessage_settle_def handleSendMessage_catch_def Let_def
      split: FetchOutcome.splits option.splits sum.splits)

lemma begin_inv:
  "session_inv s \<Longrightarrow> session_inv (handleSendMessage_begin u n s)
     \<and> threadId (handleSendMessage_begin u n s) = threadId s"
  by (auto simp: session_inv_def handleSendMessage_begin_def noThreadId_def Let_def
      inquiryRequest_def split: option.splits)

lemma step_inv:
  assumes "session_inv s" and "freshUuids [e]"
  shows "session_inv (step e s)
    \<and> (\<forall>tid. threadId s = Some tid \<longrightarrow> threadId (step e s) = Some tid)"
proof (cases e)
  case (EffectRun u)
  then show ?thesis using assms
    by (auto simp: session_inv_def useEffect_threadId_def noThreadId_def freshUuids_def
        split: option.splits)
next
  case (Change v)
  then show ?thesis using assms by (simp add: session_inv_def split: option.splits)
next
  case (Click u n)
  then show ?thesis using begin_inv [OF assms(1), of u n] by simp
next
  case (KeyDown k sh u n)
  then show ?thesis using begin_inv [OF assms(1), of u n] assms(1)
    by (simp add: handleKeyDown_def)
next
  case (FetchSettled out u n)
  then show ?thesis using settle_frame [of out u n s] assms(1)
    by (simp add: session_inv_def split: option.splits)
qed

lemma run_inv:
  "session_inv s \<Longrightarrow> freshUuids es \<Longrightarrow>
     session_inv (run es s)
     \<and> (\<forall>tid. threadId s = Some tid \<longrightarrow> threadId (run es s) = Some tid)"
proof (induction es arbitrary: s)
  case Nil
  then show ?case by simp
next
  case (Cons e es)
  from Cons.prems have fe: "freshUuids [e]" and fes: "freshUuids es"
    by (simp_all add: freshUuids_def)
  from step_inv [OF Cons.prems(1) fe]
  have i: "session_inv (step e s)"
    and k: "\<forall>tid. threadId s = Some tid \<longrightarrow> threadId (step e s) = Some tid" by simp_all
  from Cons.IH [OF i fes] k show ?case by simp
qed

lemma run_append: "run (es @ es') s = run es' (run es s)"
  by (induction es arbitrary: s) simp_all

lemma init_inv: "session_inv (ChatWidget_init now)"
  by (simp add: session_inv_def ChatWidget_init_def)

lemma response_of_Inl: "(\<exists>e. response_of data = Inl e) \<longleftrightarrow> data = JNull"
  by (cases data) simp_all

lemma try_Inr_iff:
  "(\<exists>r. chatWithAgent_try outcome = Inr r) \<longleftrightarrow>
     (\<exists>response data. outcome = Resolved response \<and> ok response
        \<and> bodyJson response = Some data \<and> data \<noteq> JNull)"
proof (cases outcome)
  case (Rejected x)
  then show ?thesis by (simp add: chatWithAgent_try_def)
next
  case (Resolved response)
  show ?thesis
  proof (cases "bodyJson response")
    case None
    with Resolved show ?thesis by (simp add: chatWithAgent_try_def)
  next
    case (Some data)
    with Resolved response_of_Inl [of data] show ?thesis
      by (cases "response_of data") (auto simp: chatWithAgent_try_def)
  qed
qed

lemma try_success: "chatWithAgent_try outcome = Inr r \<Longrightarrow> success r"
  by (auto simp: chatWithAgent_try_def
      split: FetchOutcome.splits option.splits sum.splits if_splits)

section \<open>Facts about the link rewriting\<close>

lemma matchLit_Some: "matchLit lit s = Some r \<Longrightarrow> s = lit @ r"
  by (auto simp: matchLit_def startsWith_iff_prefix prefix_def split: if_splits)

lemma matchLit_append: "matchLit lit (lit @ r) = Some r"
  by (simp add: matchLit_def startsWith_iff_prefix)

lemma matchMarkdownLink_Some:
  assumes "matchMarkdownLink s = Some (t, u, rest)"
  shows "s = markdownLink t u @ rest \<and> t \<noteq> [] \<and> u \<noteq> []"
proof -
  from assms obtain r1 r2 where
    a: "matchLit ''['' s = Some r1"
    and t: "t = takeWhile (notChar CHR '']'') r1" "t \<noteq> []"
    and b: "matchLit '']('' (dropWhile (notChar CHR '']'') r1) = Some r2"
    and u: "u = takeWhile (notChar CHR '')'') r2" "u \<noteq> []"
    and d: "matchLit '')'' (dropWhile (notChar CHR '')'') r2) = Some rest"
    by (auto simp: matchMarkdownLink_def Let_def split: option.splits if_splits)
  have "r2 = u @ dropWhile (notChar CHR '')'') r2" by (simp add: u)
  with matchLit_Some [OF d] have r2: "r2 = u @ '')'' @ rest" by simp
  have "r1 = t @ dropWhile (notChar CHR '']'') r1" by (simp add: t)
  with matchLit_Some [OF b] have r1: "r1 = t @ '']('' @ r2" by simp
  from matchLit_Some [OF a] r1 r2 have "s = ''['' @ t @ '']('' @ u @ '')'' @ rest" by simp
  then show ?thesis using t u by (simp add: markdownLink_def)
qed

lemma takeWhile_upto:
  assumes "\<And>x. x \<in> set xs \<Longrightarrow> P x" and "\<not> P d"
  shows "takeWhile P (xs @ d # r) = xs" and "dropWhile P (xs @ d # r) = d # r"
  using assms by (simp_all add: takeWhile_append2 dropWhile_append2)

lemma matchHtmlAnchor_steps:
  assumes \<open>matchLit ''<a'' s = Some r1\<close>
    and \<open>takeWhile isWhiteSpace r1 \<noteq> []\<close>
    and \<open>matchLit ''href="'' (dropWhile isWhiteSpace r1) = Some r2\<close>
    and \<open>takeWhile (notChar CHR 0x22) r2 = u\<close> and \<open>u \<noteq> []\<close>
    and \<open>matchLit ''"'' (dropWhile (notChar CHR 0x22) r2) = Some r3\<close>
    and \<open>matchLit ''>'' (dropWhile (notChar CHR ''>'') r3) = Some r4\<close>
    and \<open>takeWhile (notChar CHR ''<'') r4 = t\<close> and \<open>t \<noteq> []\<close>
    and \<open>matchLit ''</a>'' (dropWhile (notChar CHR ''<'') r4) = Some rest\<close>
  shows "matchHtmlAnchor s = Some (u, t, rest)"
  using assms by (simp add: matchHtmlAnchor_def)

lemma matchHtmlAnchor_anchor:
  assumes "t \<noteq> []" "u \<noteq> []" "CHR ''<'' \<notin> set t" "CHR 0x22 \<notin> set u"
  shows "matchHtmlAnchor (anchor t u @ X) = Some (u, t, X)"
proof -
  define r4 where "r4 = t @ CHR ''<'' # ''/a>'' @ X"
  define r3 where \<open>r3 = '' target="_blank" rel="noopener noreferrer"'' @ CHR ''>'' # r4\<close>
  define r2 where "r2 = u @ CHR 0x22 # r3"
  define r1 where \<open>r1 = '' href="'' @ r2\<close>
  have nq: "\<And>x. x \<in> set u \<Longrightarrow> notChar CHR 0x22 x"
    using assms(4) by (auto simp: notChar_def)
  have nl: "\<And>x. x \<in> set t \<Longrightarrow> notChar CHR ''<'' x"
    using assms(3) by (auto simp: notChar_def)
  have s: "anchor t u @ X = ''<a'' @ r1"
    by (simp add: anchor_def r1_def r2_def r3_def r4_def)
  have 1: "matchLit ''<a'' (anchor t u @ X) = Some r1"
    unfolding s by (rule matchLit_append)
  have 2: "takeWhile isWhiteSpace r1 \<noteq> []"
    by (simp add: r1_def isWhiteSpace_def)
  have \<open>dropWhile isWhiteSpace r1 = ''href="'' @ r2\<close>
    by (simp add: r1_def isWhiteSpace_def)
  then have 3: \<open>matchLit ''href="'' (dropWhile isWhiteSpace r1) = Some r2\<close>
    by (simp only: matchLit_append)
  have 4: "takeWhile (notChar CHR 0x22) r2 = u"
    unfolding r2_def using takeWhile_upto(1) [of u "notChar CHR 0x22" "CHR 0x22" r3, OF nq]
    by (simp add: notChar_def)
  have \<open>dropWhile (notChar CHR 0x22) r2 = ''"'' @ r3\<close>
    unfolding r2_def using takeWhile_upto(2) [of u "notChar CHR 0x22" "CHR 0x22" r3, OF nq]
    by (simp add: notChar_def)
  then have 5: \<open>matchLit ''"'' (dropWhile (notChar CHR 0x22) r2) = Some r3\<close>
    by (simp only: matchLit_append)
  have "dropWhile (notChar CHR ''>'') r3 = ''>'' @ r4"
    by (simp add: r3_def notChar_def)
  then have 6: "matchLit ''>'' (dropWhile (notChar CHR ''>'') r3) = Some r4"
    by (simp only: matchLit_append)
  have 7: "takeWhile (notChar CHR ''<'') r4 = t"
    unfolding r4_def
    using takeWhile_upto(1) [of t "notChar CHR ''<''" "CHR ''<''" "''/a>'' @ X", OF nl]
    by (simp add: notChar_def)
  have "dropWhile (notChar CHR ''<'') r4 = ''</a>'' @ X"
    unfolding r4_def
    using takeWhile_upto(2) [of t "notChar CHR ''<''" "CHR ''<''" "''/a>'' @ X", OF nl]
    by (simp add: notChar_def)
  then have 8: "matchLit ''</a>'' (dropWhile (notChar CHR ''<'') r4) = Some X"
    by (simp only: matchLit_append)
  show ?thesis
    by (rule matchHtmlAnchor_steps [OF 1 2 3 4 assms(2) 5 6 7 assms(1) 8])
qed

lemma matchHtmlAnchor_None: "\<not> startsWith s ''<a'' \<Longrightarrow> matchHtmlAnchor s = None"
  by (simp add: matchHtmlAnchor_def matchLit_def)

lemma replaceMarkdownLinks_no_a:
  "\<not> startsWith s ''a'' \<Longrightarrow> \<not> startsWith (replaceMarkdownLinks s) ''a''"
proof (cases s)
  case Nil
  then show ?thesis by simp
next
  case (Cons c cs)
  assume "\<not> startsWith s ''a''"
  with Cons have "c \<noteq> CHR ''a''" by simp
  then show ?thesis unfolding Cons
    by (cases "matchMarkdownLink (c # cs)") (auto simp: anchor_def)
qed

lemma replaceHtmlAnchors_anchor:
  assumes "t \<noteq> []" "u \<noteq> []" "CHR ''<'' \<notin> set t" "CHR 0x22 \<notin> set u"
  shows "replaceHtmlAnchors (anchor t u @ X) = markdownLink t u @ replaceHtmlAnchors X"
proof -
  obtain c cs where e: "anchor t u @ X = c # cs"
    by (cases "anchor t u @ X") (simp_all add: anchor_def)
  have "matchHtmlAnchor (c # cs) = Some (u, t, X)"
    using matchHtmlAnchor_anchor [OF assms, of X] by (simp add: e)
  then show ?thesis unfolding e by simp
qed

lemma link_round_trip:
  assumes "\<not> includes_str s ''<a''"
    and "\<forall>(t, u)\<in>set (markdownLinks s). CHR ''<'' \<notin> set t \<and> CHR 0x22 \<notin> set u"
  shows "replaceHtmlAnchors (replaceMarkdownLinks s) = s"
  using assms
proof (induction s rule: replaceMarkdownLinks.induct)
  case 1
  then show ?case by simp
next
  case (2 c cs)
  show ?case
  proof (cases "matchMarkdownLink (c # cs)")
    case None
    from "2.prems"(1)
    have na: "\<not> startsWith (c # cs) ''<a''" and nc: "\<not> includes_str cs ''<a''"
      by simp_all
    from "2.prems"(2) None
    have l: "\<forall>(t, u)\<in>set (markdownLinks cs). CHR ''<'' \<notin> set t \<and> CHR 0x22 \<notin> set u"
      by simp
    from "2.IH"(1) [OF None nc l] have ih: "replaceHtmlAnchors (replaceMarkdownLinks cs) = cs" .
    have "\<not> startsWith (c # replaceMarkdownLinks cs) ''<a''"
    proof (cases "c = CHR ''<''")
      case True
      with na have "\<not> startsWith cs ''a''" by simp
      then have "\<not> startsWith (replaceMarkdownLinks cs) ''a''"
        by (rule replaceMarkdownLinks_no_a)
      then show ?thesis by simp
    next
      case False
      then show ?thesis by simp
    qed
    then have "matchHtmlAnchor (c # replaceMarkdownLinks cs) = None"
      by (rule matchHtmlAnchor_None)
    then show ?thesis using None ih by simp
  next
    case (Some m)
    obtain t u rest where m: "m = (t, u, rest)" by (cases m) auto
    from Some m have mm: "matchMarkdownLink (c # cs) = Some (t, u, rest)" by simp
    from matchMarkdownLink_Some [OF mm]
    have e: "c # cs = markdownLink t u @ rest" and t: "t \<noteq> []" and u: "u \<noteq> []" by simp_all
    from "2.prems"(2) mm have tu: "CHR ''<'' \<notin> set t" "CHR 0x22 \<notin> set u"
      and l: "\<forall>(t, u)\<in>set (markdownLinks rest). CHR ''<'' \<notin> set t \<and> CHR 0x22 \<notin> set u"
      by simp_all
    have nc: "\<not> includes_str rest ''<a''"
      using "2.prems"(1) includes_str_suffix [of rest "''<a''" "markdownLink t u"]
      unfolding e by blast
    from "2.IH"(2) [OF Some _ _ nc l, of t "(u, rest)" u] m
    have ih: "replaceHtmlAnchors (replaceMarkdownLinks rest) = rest" by simp
    have "replaceMarkdownLinks (c # cs) = anchor t u @ replaceMarkdownLinks rest"
      using mm by simp
    then show ?thesis
      using replaceHtmlAnchors_anchor [OF t u tu, of "replaceMarkdownLinks rest"] ih e by simp
  qed
qed




section \<open>Facts about the modelled backend\<close>

lemma sorted_desc_hd:
  assumes "sorted (map f xs)" and "x \<in> set xs"
  shows "f (hd xs) \<le> f x"
proof (cases xs)
  case Nil
  with assms(2) show ?thesis by simp
next
  case (Cons y ys)
  with assms show ?thesis by auto
qed

lemma list_ex_top:
  fixes ms :: "('p \<times> real) list"
  assumes "sorted (map (\<lambda>(p, score). - score) ms)"
  shows "list_ex (\<lambda>(p, score). th \<le> score) ms \<longleftrightarrow>
         (case ms of [] \<Rightarrow> False | (p, score) # rest \<Rightarrow> th \<le> score)"
proof (cases ms)
  case Nil
  then show ?thesis by simp
next
  case (Cons m rest)
  obtain p sc where m: "m = (p, sc)" by (cases m)
  show ?thesis
  proof
    assume "list_ex (\<lambda>(p, score). th \<le> score) ms"
    then obtain q s where qs: "(q, s) \<in> set ms" "th \<le> s"
      by (auto simp: list_ex_iff)
    from sorted_desc_hd [OF assms qs(1)] Cons m have "s \<le> sc" by simp
    with qs(2) show "case ms of [] \<Rightarrow> False | (p, score) # rest \<Rightarrow> th \<le> score"
      using Cons m by simp
  next
    assume "case ms of [] \<Rightarrow> False | (p, score) # rest \<Rightarrow> th \<le> score"
    then show "list_ex (\<lambda>(p, score). th \<le> score) ms"
      using Cons m by simp
  qed
qed

lemma retrieve_sorted:
  "sorted (map (\<lambda>(p, score). - score) (matches (retrieve th pf sim corpus qi k)))"
proof -
  have "sorted (map (\<lambda>(p, score). - score) (sort_key (\<lambda>(p, score). - score) xs))"
    for xs :: "('p \<times> real) list"
    by (rule sorted_sort_key)
  then show ?thesis
    by (simp add: retrieve_def Let_def take_map [symmetric] sorted_wrt_take del: take_map)
qed

lemma run_turn_researched:
  assumes "classify C q prior = Inr i" and "\<not> hit (retriever C i) \<or> out_of_schema C i"
  shows "map phase (run_turn C q prior) =
           [RECEIVED, CLASSIFIED, RETRIEVED, WEB_RESEARCHED, SYNTHESIZED, PERSISTED, DONE]
         \<and> answer (last (run_turn C q prior)) =
             Some (synthesize C i (retriever C i)
                (case research C i (retriever C i) of Inl err \<Rightarrow> [] | Inr found \<Rightarrow> found) True)"
  using assms
  by (simp add: run_turn_def start_turn_def advance_def numeral_nat)

lemma run_turn_skipped:
  assumes "classify C q prior = Inr i" and "hit (retriever C i)" and "\<not> out_of_schema C i"
  shows "map phase (run_turn C q prior) =
           [RECEIVED, CLASSIFIED, RETRIEVED, SKIPPED, SYNTHESIZED, PERSISTED, DONE]
         \<and> answer (last (run_turn C q prior)) = Some (synthesize C i (retriever C i) [] False)"
  using assms
  by (simp add: run_turn_def start_turn_def advance_def numeral_nat)


section \<open>The mock client\<close>

text \<open>
  C10. \<open>mockChatWithAgent\<close> is total and deterministic: for every message it reports
  success, and its reply is a function of the lowercased message alone, namely the reply
  of the first keyword group (hello/hi, then property/house/apartment, then
  price/cost/budget, then location/area/where) with a keyword occurring in the lowercased
  message, and the default reply when there is none. In particular a message containing
  both "hello" and "property" gets the greeting.
\<close>

theorem mockChatWithAgent_first_match:
  "success (mockChatWithAgent msg)
   \<and> mockChatWithAgent msg =
       \<lparr>message = Val (JStr (firstMatchingReply (toLowerCase msg))), success = True\<rparr>
   \<and> (toLowerCase msg = toLowerCase msg' \<longrightarrow> mockChatWithAgent msg = mockChatWithAgent msg')
   \<and> (includes_str msg ''hello'' \<and> includes_str msg ''property''
        \<longrightarrow> message (mockChatWithAgent msg) = Val (JStr greetingReply))"
proof -
  have eq: "mockChatWithAgent m =
      \<lparr>message = Val (JStr (firstMatchingReply (toLowerCase m))), success = True\<rparr>" for m
    by (simp add: mockChatWithAgent_def firstMatchingReply_def keywordGroups_def Let_def)
  have hello: "message (mockChatWithAgent msg) = Val (JStr greetingReply)"
    if "includes_str msg ''hello''"
    using includes_hello_lower [OF that] by (simp add: mockChatWithAgent_def Let_def)
  show ?thesis
    using eq [of msg] eq [of msg'] hello by simp
qed

theorem mockChatWithAgent_first_match_witness:
  "includes_str ''hello property'' ''hello'' \<and> includes_str ''hello property'' ''property''
   \<and> toLowerCase ''hello property'' = toLowerCase ''HELLO Property''
   \<and> message (mockChatWithAgent ''hello property'') = Val (JStr greetingReply)
   \<and> mockChatWithAgent ''hello property'' = mockChatWithAgent ''HELLO Property''"
proof -
  have a: "includes_str ''hello property'' ''hello''" by simp
  have b: "includes_str ''hello property'' ''property''" by simp
  have c: "toLowerCase ''hello property'' = toLowerCase ''HELLO Property''" by code_simp
  show ?thesis
    using a b c mockChatWithAgent_first_match [of "''hello property''" "''HELLO Property''"]
    by blast
qed

section \<open>The chat widget: sending\<close>

text \<open>
  C8. If the input value is empty or consists only of whitespace, or if no thread id has
  been assigned yet, \<open>handleSendMessage\<close> returns without issuing a request and without
  changing the messages, the input value or the loading flag: the whole state, the list
  of issued requests included, is unchanged. The same holds for the click and the key
  handler that call it.
\<close>

theorem handleSendMessage_noop:
  "(\<forall>c\<in>set (inputValue s). isWhiteSpace c) \<or> threadId s = None \<Longrightarrow>
     handleSendMessage outcome uuid1 now1 uuid2 now2 s = s
     \<and> handleSendMessage_begin uuid1 now1 s = s
     \<and> step (Click uuid1 now1) s = s
     \<and> step (KeyDown key shiftKey uuid1 now1) s = s"
  by (auto simp: handleSendMessage_def handleSendMessage_begin_def handleKeyDown_def
      trim_empty_iff noThreadId_def)

theorem handleSendMessage_noop_witness:
  "((\<forall>c\<in>set (inputValue ((ChatWidget_init 0)\<lparr>inputValue := ''  '', threadId := Some ''t-1''\<rparr>)).
        isWhiteSpace c)
     \<or> threadId ((ChatWidget_init 0)\<lparr>inputValue := ''  '', threadId := Some ''t-1''\<rparr>) = None)
   \<and> handleSendMessage (Rejected ''offline'') ''m-1'' 1 ''m-2'' 2
        ((ChatWidget_init 0)\<lparr>inputValue := ''  '', threadId := Some ''t-1''\<rparr>)
      = (ChatWidget_init 0)\<lparr>inputValue := ''  '', threadId := Some ''t-1''\<rparr>
   \<and> requests (step (Click ''m-1'' 1)
        ((ChatWidget_init 0)\<lparr>inputValue := ''  '', threadId := Some ''t-1''\<rparr>)) = []"
proof -
  let ?s = "(ChatWidget_init 0)\<lparr>inputValue := ''  '', threadId := Some ''t-1''\<rparr>"
  have h: "(\<forall>c\<in>set (inputValue ?s). isWhiteSpace c) \<or> threadId ?s = None"
    by (simp add: isWhiteSpace_def)
  have r: "requests ?s = []" by (simp add: ChatWidget_init_def)
  show ?thesis
    using h r handleSendMessage_noop [OF h, of "Rejected ''offline''" "''m-1''" 1 "''m-2''" 2]
    by simp
qed

text \<open>
  C4. The transcript is append-only: every event of the widget leaves the messages as they
  are or appends exactly one message, so the messages before any run of events are a
  prefix of the messages after it. A send that passes the guard appends exactly the user
  message, and a reply that is read successfully appends exactly the assistant message.
\<close>

theorem messages_append_only:
  "(messages (step e s) = messages s \<or> (\<exists>m. messages (step e s) = messages s @ [m]))
   \<and> prefix (messages s) (messages (run es s))
   \<and> (trim (inputValue s) \<noteq> [] \<and> \<not> noThreadId (threadId s) \<longrightarrow>
        messages (handleSendMessage_begin uuid now s) =
          messages s @ [\<lparr>id_msg = uuid, content = Val (JStr (inputValue s)), role = User,
                          timestamp = now\<rparr>])
   \<and> (ok response \<and> bodyJson response = Some data \<and> response_of data = Inr v \<longrightarrow>
        messages (handleSendMessage_settle (Resolved response) uuid now s) =
          messages s @ [\<lparr>id_msg = uuid, content = v, role = Assistant, timestamp = now\<rparr>])"
proof -
  have a: "messages (handleSendMessage_begin uuid now s) =
          messages s @ [\<lparr>id_msg = uuid, content = Val (JStr (inputValue s)), role = User,
                          timestamp = now\<rparr>]"
    if "trim (inputValue s) \<noteq> []" "\<not> noThreadId (threadId s)"
    using that
    by (simp add: handleSendMessage_begin_def noThreadId_def Let_def split: option.splits)
  have b: "messages (handleSendMessage_settle (Resolved response) uuid now s) =
          messages s @ [\<lparr>id_msg = uuid, content = v, role = Assistant, timestamp = now\<rparr>]"
    if "ok response" "bodyJson response = Some data" "response_of data = Inr v"
    using that by (simp add: handleSendMessage_settle_def Let_def)
  show ?thesis
    using step_messages [of e s] run_messages_prefix [of s es] a b by blast
qed

theorem messages_append_only_witness:
  "trim (inputValue ((ChatWidget_init 0)\<lparr>inputValue := ''condos?'', threadId := Some ''t-1''\<rparr>)) \<noteq> []
   \<and> \<not> noThreadId (threadId ((ChatWidget_init 0)\<lparr>inputValue := ''condos?'', threadId := Some ''t-1''\<rparr>))
   \<and> ok \<lparr>status = 200, statusText = ''OK'', bodyJson = Some (JObj [(''response'', JStr ''Three.'')])\<rparr>
   \<and> response_of (JObj [(''response'', JStr ''Three.'')]) = Inr (Val (JStr ''Three.''))
   \<and> messages (handleSendMessage_begin ''m-1'' 1
        ((ChatWidget_init 0)\<lparr>inputValue := ''condos?'', threadId := Some ''t-1''\<rparr>))
      = [welcomeMessage 0,
         \<lparr>id_msg = ''m-1'', content = Val (JStr ''condos?''), role = User, timestamp = 1\<rparr>]
   \<and> messages (handleSendMessage_settle
        (Resolved \<lparr>status = 200, statusText = ''OK'',
                   bodyJson = Some (JObj [(''response'', JStr ''Three.'')])\<rparr>) ''m-1'' 1
        ((ChatWidget_init 0)\<lparr>inputValue := ''condos?'', threadId := Some ''t-1''\<rparr>))
      = [welcomeMessage 0,
         \<lparr>id_msg = ''m-1'', content = Val (JStr ''Three.''), role = Assistant, timestamp = 1\<rparr>]"
proof -
  let ?s = "(ChatWidget_init 0)\<lparr>inputValue := ''condos?'', threadId := Some ''t-1''\<rparr>"
  let ?d = "JObj [(''response'', JStr ''Three.'')]"
  let ?r = "\<lparr>status = 200, statusText = ''OK'', bodyJson = Some ?d\<rparr>"
  have h1: "trim (inputValue ?s) \<noteq> []" by (simp add: trim_def isWhiteSpace_def)
  have h2: "\<not> noThreadId (threadId ?s)" by (simp add: noThreadId_def)
  have h3: "ok ?r" by (simp add: ok_def)
  have h4: "bodyJson ?r = Some ?d" by simp
  have h5: "response_of ?d = Inr (Val (JStr ''Three.''))" by simp
  have m: "messages ?s = [welcomeMessage 0]" by (simp add: ChatWidget_init_def)
  show ?thesis
    using h1 h2 h3 h4 h5 m
      messages_append_only [of "Change []" ?s "[]" "''m-1''" 1 ?r ?d "Val (JStr ''Three.'')"]
    by simp
qed


text \<open>
  C1. Every request that the widget issues goes to the inquiry endpoint and carries both
  fields of the contract: each event either sends nothing, or it is a send that passed the
  guard and appends exactly one request whose body has the raw input value under
  \<open>query\<close> and the thread's id under \<open>thread_id\<close>. The client module \<open>chatWithAgent\<close> is a
  separate path: its request goes to \<open>/chat\<close> and its body is \<open>{ message }\<close> alone.
\<close>

theorem inquiry_request_contract:
  "(requests (step e s) = requests s
     \<or> (\<exists>tid. threadId s = Some tid \<and> tid \<noteq> [] \<and> trim (inputValue s) \<noteq> []
          \<and> requests (step e s) = requests s @ [inquiryRequest (inputValue s) tid]))
   \<and> endpoint (inquiryRequest query tid) = ''http://localhost:8000/api/property/inquiry''
   \<and> member (body (inquiryRequest query tid)) ''query'' = Some (JStr query)
   \<and> member (body (inquiryRequest query tid)) ''thread_id'' = Some (JStr tid)
   \<and> (trim (inputValue s) \<noteq> [] \<and> threadId s = Some tid \<and> tid \<noteq> [] \<longrightarrow>
        requests (handleSendMessage_begin uuid now s) =
          requests s @ [inquiryRequest (inputValue s) tid])
   \<and> body (chatWithAgent_request msg) = JObj [(''message'', JStr msg)]
   \<and> endpoint (chatWithAgent_request msg) = ''http://localhost:8000/chat''"
proof -
  have b: "requests (handleSendMessage_begin u n s) = requests s
     \<or> (\<exists>tid. threadId s = Some tid \<and> tid \<noteq> [] \<and> trim (inputValue s) \<noteq> []
          \<and> requests (handleSendMessage_begin u n s) =
              requests s @ [inquiryRequest (inputValue s) tid])" for u n
    by (auto simp: begin_requests noThreadId_def split: option.splits)
  have st: "requests (step e s) = requests s
     \<or> (\<exists>tid. threadId s = Some tid \<and> tid \<noteq> [] \<and> trim (inputValue s) \<noteq> []
          \<and> requests (step e s) = requests s @ [inquiryRequest (inputValue s) tid])"
  proof (cases e)
    case (EffectRun u)
    then show ?thesis by (simp add: useEffect_threadId_def)
  next
    case (Change v)
    then show ?thesis by simp
  next
    case (Click u n)
    then show ?thesis using b [of u n] by simp
  next
    case (KeyDown k sh u n)
    then show ?thesis using b [of u n] by (simp add: handleKeyDown_def)
  next
    case (FetchSettled out u n)
    then show ?thesis using settle_frame [of out u n s] by simp
  qed
  have c: "requests (handleSendMessage_begin uuid now s) =
      requests s @ [inquiryRequest (inputValue s) tid]"
    if "trim (inputValue s) \<noteq> []" "threadId s = Some tid" "tid \<noteq> []"
    using that by (simp add: begin_requests noThreadId_def)
  show ?thesis
    using st c
    by (simp add: inquiryRequest_def inquiryUrl_def chatWithAgent_request_def API_URL_def)
qed

theorem inquiry_request_contract_witness:
  "trim (inputValue ((ChatWidget_init 0)\<lparr>inputValue := '' condos? '', threadId := Some ''t-1''\<rparr>)) \<noteq> []
   \<and> threadId ((ChatWidget_init 0)\<lparr>inputValue := '' condos? '', threadId := Some ''t-1''\<rparr>) = Some ''t-1''
   \<and> ''t-1'' \<noteq> []
   \<and> requests (handleSendMessage_begin ''m-1'' 1
        ((ChatWidget_init 0)\<lparr>inputValue := '' condos? '', threadId := Some ''t-1''\<rparr>))
      = [inquiryRequest '' condos? '' ''t-1'']
   \<and> member (body (inquiryRequest '' condos? '' ''t-1'')) ''query'' = Some (JStr '' condos? '')
   \<and> member (body (inquiryRequest '' condos? '' ''t-1'')) ''thread_id'' = Some (JStr ''t-1'')"
proof -
  let ?s = "(ChatWidget_init 0)\<lparr>inputValue := '' condos? '', threadId := Some ''t-1''\<rparr>"
  have h1: "trim (inputValue ?s) \<noteq> []" by (simp add: trim_def isWhiteSpace_def)
  have h2: "threadId ?s = Some ''t-1''" by simp
  have h3: "''t-1'' \<noteq> []" by simp
  have r: "requests ?s = []" by (simp add: ChatWidget_init_def)
  show ?thesis
    using h1 h2 h3 r
      inquiry_request_contract [of "Change []" ?s "'' condos? ''" "''t-1''" "''m-1''" 1 "[]"]
    by simp
qed

text \<open>
  The request of \<open>chatWithAgent\<close> for the message "hello" goes to \<open>/chat\<close> and its body has
  neither a \<open>query\<close> nor a \<open>thread_id\<close> entry.
\<close>

theorem chatWithAgent_request_counterexample:
  "member (body (chatWithAgent_request ''hello'')) ''query'' = None
   \<and> member (body (chatWithAgent_request ''hello'')) ''thread_id'' = None
   \<and> endpoint (chatWithAgent_request ''hello'') = ''http://localhost:8000/chat''"
  by (simp add: chatWithAgent_request_def API_URL_def)

section \<open>Failed requests\<close>

text \<open>
  C2. \<open>chatWithAgent\<close> never throws: its promise resolves for every message and every
  outcome of the request. On a network error or a non-ok status \<open>success\<close> is false;
  whenever \<open>success\<close> is false the message is the fixed fallback text and the error went to
  the console only. \<open>success\<close> is true iff the request resolved with an ok status and its
  body was read as a JSON value other than \<open>null\<close>. In the widget a failed request shows
  the fixed toast, appends no message and logs the error; no settling of a request ever
  shows another toast than the fixed one.
\<close>

theorem chatWithAgent_never_throws:
  "(\<exists>r. snd (chatWithAgent msg outcome) = Inr r
      \<and> (success r \<longleftrightarrow> (\<exists>response data. outcome = Resolved response \<and> ok response
                             \<and> bodyJson response = Some data \<and> data \<noteq> JNull))
      \<and> (requestFailed outcome \<longrightarrow> \<not> success r)
      \<and> (\<not> success r \<longrightarrow> message r = Val (JStr connectionFallback)
            \<and> (\<exists>error. fst (chatWithAgent msg outcome) =
                  [ConsoleError ''Error chatting with agent:'' error]))
      \<and> (success r \<longrightarrow> fst (chatWithAgent msg outcome) = []))
   \<and> (requestFailed outcome \<longrightarrow>
        toasts (handleSendMessage_settle outcome uuid now s) = toasts s @ [connectionToast]
        \<and> messages (handleSendMessage_settle outcome uuid now s) = messages s
        \<and> (\<exists>error. console (handleSendMessage_settle outcome uuid now s) =
              console s @ [ConsoleError ''API Error:'' error])
        \<and> \<not> isLoading (handleSendMessage_settle outcome uuid now s))
   \<and> (toasts (handleSendMessage_settle outcome uuid now s) = toasts s
        \<or> toasts (handleSendMessage_settle outcome uuid now s) = toasts s @ [connectionToast])"
proof -
  have w: "toasts (handleSendMessage_settle outcome uuid now s) = toasts s @ [connectionToast]
        \<and> messages (handleSendMessage_settle outcome uuid now s) = messages s
        \<and> (\<exists>error. console (handleSendMessage_settle outcome uuid now s) =
              console s @ [ConsoleError ''API Error:'' error])
        \<and> \<not> isLoading (handleSendMessage_settle outcome uuid now s)"
    if "requestFailed outcome"
    using that
    by (cases outcome)
       (simp_all add: requestFailed_def handleSendMessage_settle_def handleSendMessage_catch_def)
  have f: "\<not> (\<exists>response data. outcome = Resolved response \<and> ok response
                             \<and> bodyJson response = Some data \<and> data \<noteq> JNull)"
    if "requestFailed outcome"
    using that by (auto simp: requestFailed_def)
  note t = settle_toasts [of outcome uuid now s]
  show ?thesis
  proof (cases "chatWithAgent_try outcome")
    case (Inl e)
    then have "\<not> (\<exists>r. chatWithAgent_try outcome = Inr r)" by simp
    then have n: "\<not> (\<exists>response data. outcome = Resolved response \<and> ok response
                             \<and> bodyJson response = Some data \<and> data \<noteq> JNull)"
      unfolding try_Inr_iff .
    from Inl have c: "chatWithAgent msg outcome =
        ([ConsoleError ''Error chatting with agent:'' e],
         Inr \<lparr>message = Val (JStr connectionFallback), success = False\<rparr>)"
      by (simp add: chatWithAgent_def)
    show ?thesis using n w t by (simp add: c)
  next
    case (Inr r)
    then have "\<exists>r. chatWithAgent_try outcome = Inr r" by blast
    then have y: "\<exists>response data. outcome = Resolved response \<and> ok response
                             \<and> bodyJson response = Some data \<and> data \<noteq> JNull"
      unfolding try_Inr_iff .
    from Inr have c: "chatWithAgent msg outcome = ([], Inr r)"
      by (simp add: chatWithAgent_def)
    from try_success [OF Inr] have s: "success r" .
    show ?thesis using y w f s t by (auto simp: c)
  qed
qed

theorem chatWithAgent_never_throws_witness:
  "requestFailed (Resolved \<lparr>status = 503, statusText = ''Service Unavailable'', bodyJson = None\<rparr>)
   \<and> chatWithAgent ''hello''
        (Resolved \<lparr>status = 503, statusText = ''Service Unavailable'', bodyJson = None\<rparr>)
      = ([ConsoleError ''Error chatting with agent:'' (StatusTextError ''Service Unavailable'')],
         Inr \<lparr>message = Val (JStr connectionFallback), success = False\<rparr>)
   \<and> toasts (handleSendMessage_settle
        (Resolved \<lparr>status = 503, statusText = ''Service Unavailable'', bodyJson = None\<rparr>)
        ''m-2'' 2 (ChatWidget_init 0)) = [connectionToast]
   \<and> messages (handleSendMessage_settle
        (Resolved \<lparr>status = 503, statusText = ''Service Unavailable'', bodyJson = None\<rparr>)
        ''m-2'' 2 (ChatWidget_init 0)) = [welcomeMessage 0]"
proof -
  let ?o = "Resolved \<lparr>status = 503, statusText = ''Service Unavailable'', bodyJson = None\<rparr>"
  have h: "requestFailed ?o" by (simp add: requestFailed_def ok_def)
  have c: "chatWithAgent ''hello'' ?o
      = ([ConsoleError ''Error chatting with agent:'' (StatusTextError ''Service Unavailable'')],
         Inr \<lparr>message = Val (JStr connectionFallback), success = False\<rparr>)"
    by (simp add: chatWithAgent_def chatWithAgent_try_def ok_def)
  have i: "toasts (ChatWidget_init 0) = []" "messages (ChatWidget_init 0) = [welcomeMessage 0]"
    by (simp_all add: ChatWidget_init_def)
  show ?thesis
    using h c i chatWithAgent_never_throws [of "''hello''" ?o "''m-2''" 2 "ChatWidget_init 0"]
    by simp
qed

text \<open>
  A request that resolves with status 200 and a body that is not JSON: the fetch succeeded
  with an ok status, and \<open>chatWithAgent\<close> reports \<open>success = false\<close> with the fallback text.
\<close>

theorem chatWithAgent_success_counterexample:
  "ok \<lparr>status = 200, statusText = ''OK'', bodyJson = None\<rparr>
   \<and> snd (chatWithAgent ''hello'' (Resolved \<lparr>status = 200, statusText = ''OK'', bodyJson = None\<rparr>))
       = Inr \<lparr>message = Val (JStr connectionFallback), success = False\<rparr>"
  by (simp add: ok_def chatWithAgent_def chatWithAgent_try_def)


section \<open>Reading the reply\<close>




section \<open>The thread id\<close>

text \<open>
  C5. The thread id is stable across a session. The effect assigns a fresh uuid while the
  thread id is null; once it is assigned no event changes it, and every request sent in
  the session carries that same value as \<open>thread_id\<close>. Before it is assigned nothing is
  sent. (Every uuid that \<open>uuidv4()\<close> returns is taken to be a non-empty string.)
\<close>

theorem threadId_stable:
  assumes "freshUuids (es @ es')"
  shows "(\<forall>tid. threadId (run es (ChatWidget_init now)) = Some tid \<longrightarrow>
            threadId (run (es @ es') (ChatWidget_init now)) = Some tid
            \<and> (\<forall>r\<in>set (requests (run (es @ es') (ChatWidget_init now))).
                  member (body r) ''thread_id'' = Some (JStr tid)))
         \<and> (threadId (run es (ChatWidget_init now)) = None \<longrightarrow>
              requests (run es (ChatWidget_init now)) = [])
         \<and> threadId (step (EffectRun uuid) (ChatWidget_init now)) = Some uuid"
proof -
  from assms have f1: "freshUuids es" and f2: "freshUuids es'"
    by (simp_all add: freshUuids_def)
  let ?s = "run es (ChatWidget_init now)"
  from run_inv [OF init_inv f1] have i1: "session_inv ?s" by simp
  from run_inv [OF i1 f2]
  have i2: "session_inv (run es' ?s)"
    and k: "\<forall>tid. threadId ?s = Some tid \<longrightarrow> threadId (run es' ?s) = Some tid" by simp_all
  have e: "threadId (step (EffectRun uuid) (ChatWidget_init now)) = Some uuid"
    by (simp add: useEffect_threadId_def noThreadId_def ChatWidget_init_def)
  show ?thesis
    using i1 i2 k e by (auto simp: run_append session_inv_def split: option.splits)
qed

theorem threadId_stable_witness:
  "freshUuids ([EffectRun ''uuid-1'', Change ''condos?'', Click ''m-1'' 1]
               @ [EffectRun ''uuid-2'', Change ''and houses?'', KeyDown ''Enter'' False ''m-2'' 2])
   \<and> threadId (run [EffectRun ''uuid-1'', Change ''condos?'', Click ''m-1'' 1] (ChatWidget_init 0))
      = Some ''uuid-1''
   \<and> threadId (run ([EffectRun ''uuid-1'', Change ''condos?'', Click ''m-1'' 1]
               @ [EffectRun ''uuid-2'', Change ''and houses?'', KeyDown ''Enter'' False ''m-2'' 2])
          (ChatWidget_init 0)) = Some ''uuid-1''
   \<and> map (\<lambda>r. member (body r) ''thread_id'')
        (requests (run ([EffectRun ''uuid-1'', Change ''condos?'', Click ''m-1'' 1]
               @ [EffectRun ''uuid-2'', Change ''and houses?'', KeyDown ''Enter'' False ''m-2'' 2])
          (ChatWidget_init 0)))
      = [Some (JStr ''uuid-1''), Some (JStr ''uuid-1'')]"
proof -
  let ?es = "[EffectRun ''uuid-1'', Change ''condos?'', Click ''m-1'' 1]"
  let ?es' = "[EffectRun ''uuid-2'', Change ''and houses?'', KeyDown ''Enter'' False ''m-2'' 2]"
  have h: "freshUuids (?es @ ?es')" by (simp add: freshUuids_def)
  have t: "threadId (run ?es (ChatWidget_init 0)) = Some ''uuid-1''"
    by (simp add: ChatWidget_init_def useEffect_threadId_def noThreadId_def
        handleSendMessage_begin_def trim_def isWhiteSpace_def Let_def)
  have l: "length (requests (run (?es @ ?es') (ChatWidget_init 0))) = 2"
    by (simp add: ChatWidget_init_def useEffect_threadId_def noThreadId_def handleKeyDown_def
        handleSendMessage_begin_def trim_def isWhiteSpace_def Let_def)
  from threadId_stable [OF h, of 0 "''uuid-1''"] t
  have a: "threadId (run (?es @ ?es') (ChatWidget_init 0)) = Some ''uuid-1''"
    and b: "\<forall>r\<in>set (requests (run (?es @ ?es') (ChatWidget_init 0))).
              member (body r) ''thread_id'' = Some (JStr ''uuid-1'')"
    by blast+
  from l obtain r1 r2 where rr: "requests (run (?es @ ?es') (ChatWidget_init 0)) = [r1, r2]"
    by (auto simp: length_Suc_conv numeral_2_eq_2)
  with b have "map (\<lambda>r. member (body r) ''thread_id'')
        (requests (run (?es @ ?es') (ChatWidget_init 0)))
      = [Some (JStr ''uuid-1''), Some (JStr ''uuid-1'')]"
    by simp
  with h t a show ?thesis by blast
qed


section \<open>Link rewriting\<close>

text \<open>
  C9. Round trip of the link rewriting in \<open>formatMessage\<close>: for content whose only links
  are well-formed markdown links \<open>[text](url)\<close> and which contains no anchor tags, the two
  successive replacements should compose to the identity. The code misses this: the second
  expression captures the link text with \<open>[^<]+\<close> and the url with \<open>[^"]+\<close>, so on the
  content \<open>[rent <2k](http://x.io)\<close> the anchor that the first replacement made is not
  turned back and the renderer is handed the anchor element, and on a url that contains a
  double quote the link comes back with its url cut at the quote.
\<close>

theorem formatMessage_round_trip_fails:
  \<open>\<not> includes_str ''[rent <2k](http://x.io)'' ''<a''
   \<and> markdownLinks ''[rent <2k](http://x.io)'' = [(''rent <2k'', ''http://x.io'')]
   \<and> replaceMarkdownLinks ''[rent <2k](http://x.io)''
       = ''<a href="http://x.io" target="_blank" rel="noopener noreferrer">rent <2k</a>''
   \<and> finalContent ''[rent <2k](http://x.io)''
       = ''<a href="http://x.io" target="_blank" rel="noopener noreferrer">rent <2k</a>''
   \<and> finalContent ''[rent <2k](http://x.io)'' \<noteq> ''[rent <2k](http://x.io)''
   \<and> \<not> includes_str ''[map](http://x.io/?q="a")'' ''<a''
   \<and> markdownLinks ''[map](http://x.io/?q="a")'' = [(''map'', ''http://x.io/?q="a"'')]
   \<and> finalContent ''[map](http://x.io/?q="a")'' = ''[map](http://x.io/?q=)''\<close>
  by code_simp

section \<open>The modelled backend\<close>

lemma retrieve_hit_any:
  assumes "0 < k"
  shows "hit (retrieve th pf sim corpus qi k) \<longleftrightarrow>
         (\<exists>p\<in>set corpus. pf qi p \<and> th \<le> sim qi p)"
proof -
  let ?cands = "map (\<lambda>p. (p, sim qi p)) (filter (pf qi) corpus)"
  let ?ranked = "sort_key (\<lambda>(p, score). - score) ?cands"
  let ?P = "\<lambda>(p, score). th \<le> (score :: real)"
  have s: "sorted (map (\<lambda>(p, score). - score) ?ranked)"
    by (rule sorted_sort_key)
  have st: "sorted (map (\<lambda>(p, score). - score) (take k ?ranked))"
    using s by (simp add: take_map [symmetric] sorted_wrt_take del: take_map)
  have "hit (retrieve th pf sim corpus qi k) = list_ex ?P (take k ?ranked)"
    by (simp add: retrieve_def Let_def)
  also have "\<dots> \<longleftrightarrow> (case take k ?ranked of [] \<Rightarrow> False | (p, score) # rest \<Rightarrow> th \<le> score)"
    by (rule list_ex_top [OF st])
  also have "\<dots> \<longleftrightarrow> (case ?ranked of [] \<Rightarrow> False | (p, score) # rest \<Rightarrow> th \<le> score)"
    using assms by (cases ?ranked; cases k) simp_all
  also have "\<dots> \<longleftrightarrow> list_ex ?P ?ranked"
    by (rule list_ex_top [OF s, symmetric])
  also have "\<dots> \<longleftrightarrow> (\<exists>x\<in>set ?cands. ?P x)"
    by (simp add: list_ex_iff)
  also have "\<dots> \<longleftrightarrow> (\<exists>p\<in>set corpus. pf qi p \<and> th \<le> sim qi p)"
    by auto
  finally show ?thesis .
qed

lemma example_matches:
  "matches (retrieve th (\<lambda>q p. p \<noteq> 3) exampleSimilarity [1, 2, 3, 4] () 2)
     = [(2, 3 / 4), (4, 3 / 5)]"
  by (simp add: retrieve_def exampleSimilarity_def Let_def)

text \<open>
  C6. For every retrieval result, \<open>hit\<close> is true iff the score of the top-1 filtered
  candidate is greater than or equal to the relevance threshold (with \<open>k > 0\<close> that is: iff
  some record of the corpus passes the filters and reaches the threshold; records that are
  filtered out never count). A top candidate whose score equals the threshold is a hit, and
  one strictly below it is a miss.
\<close>

theorem retrieval_hit_threshold:
  "(hit (retrieve th pf sim corpus qi k) \<longleftrightarrow>
      (case matches (retrieve th pf sim corpus qi k) of
         [] \<Rightarrow> False
       | (p, score) # rest \<Rightarrow> th \<le> score))
   \<and> (0 < k \<longrightarrow>
        (hit (retrieve th pf sim corpus qi k) \<longleftrightarrow>
           (\<exists>p\<in>set corpus. pf qi p \<and> th \<le> sim qi p)))
   \<and> (matches (retrieve th pf sim corpus qi k) = (best, score1) # others \<and> score1 = th
        \<longrightarrow> hit (retrieve th pf sim corpus qi k))
   \<and> (matches (retrieve th pf sim corpus qi k) = (best, score1) # others \<and> score1 < th
        \<longrightarrow> \<not> hit (retrieve th pf sim corpus qi k))"
proof -
  let ?r = "retrieve th pf sim corpus qi k"
  have h: "hit ?r = list_ex (\<lambda>(p, score). th \<le> score) (matches ?r)"
    by (simp add: retrieve_def Let_def)
  have e: "hit ?r \<longleftrightarrow> (case matches ?r of [] \<Rightarrow> False | (p, score) # rest \<Rightarrow> th \<le> score)"
    unfolding h by (rule list_ex_top [OF retrieve_sorted])
  have a: "0 < k \<longrightarrow> (hit ?r \<longleftrightarrow> (\<exists>p\<in>set corpus. pf qi p \<and> th \<le> sim qi p))"
    using retrieve_hit_any [of k th pf sim corpus qi] by blast
  have b: "matches ?r = (best, score1) # others \<and> score1 = th \<longrightarrow> hit ?r"
    using e by auto
  have c: "matches ?r = (best, score1) # others \<and> score1 < th \<longrightarrow> \<not> hit ?r"
    using e by auto
  from e a b c show ?thesis by blast
qed

theorem retrieval_hit_threshold_witness:
  "(0::nat) < 2
   \<and> matches (retrieve (3 / 4) (\<lambda>q p. p \<noteq> 3) exampleSimilarity [1, 2, 3, 4] () 2)
       = [(2, 3 / 4), (4, 3 / 5)]
   \<and> hit (retrieve (3 / 4) (\<lambda>q p. p \<noteq> 3) exampleSimilarity [1, 2, 3, 4] () 2)
   \<and> matches (retrieve (4 / 5) (\<lambda>q p. p \<noteq> 3) exampleSimilarity [1, 2, 3, 4] () 2)
       = [(2, 3 / 4), (4, 3 / 5)]
   \<and> (3 / 4 :: real) < 4 / 5
   \<and> \<not> hit (retrieve (4 / 5) (\<lambda>q p. p \<noteq> 3) exampleSimilarity [1, 2, 3, 4] () 2)"
proof -
  let ?pf = "\<lambda>(q::unit) (p::nat). p \<noteq> 3"
  have m: "matches (retrieve th ?pf exampleSimilarity [1, 2, 3, 4] () 2)
      = [(2, 3 / 4), (4, 3 / 5)]" for th
    by (rule example_matches)
  from retrieval_hit_threshold [where th = "3 / 4" and pf = ?pf and sim = exampleSimilarity
      and corpus = "[1, 2, 3, 4]" and qi = "()" and k = 2 and best = 2
      and ?score1.0 = "3 / 4" and others = "[(4, 3 / 5)]"] m [of "3 / 4"]
  have a: "hit (retrieve (3 / 4) ?pf exampleSimilarity [1, 2, 3, 4] () 2)" by simp
  from retrieval_hit_threshold [where th = "4 / 5" and pf = ?pf and sim = exampleSimilarity
      and corpus = "[1, 2, 3, 4]" and qi = "()" and k = 2 and best = 2
      and ?score1.0 = "3 / 4" and others = "[(4, 3 / 5)]"] m [of "4 / 5"]
  have b: "\<not> hit (retrieve (4 / 5) ?pf exampleSimilarity [1, 2, 3, 4] () 2)" by simp
  show ?thesis using a b m [of "3 / 4"] m [of "4 / 5"] by simp
qed

text \<open>
  C7. For every turn whose retrieval result has \<open>hit = false\<close>, the web research step is
  taken and the final response reports \<open>evidence_used.web_search = true\<close>, unless the Web
  Research Agent returned zero evidence (or was unavailable), in which case the response
  states the limitation; when \<open>hit = true\<close> and the intent has no out-of-schema need, the
  web research step is skipped. In both cases the turn reaches DONE.
\<close>

theorem escalation_invariant:
  assumes "classify C q prior = Inr i"
  shows "(\<not> hit (retriever C i) \<longrightarrow>
            map phase (run_turn C q prior) =
              [RECEIVED, CLASSIFIED, RETRIEVED, WEB_RESEARCHED, SYNTHESIZED, PERSISTED, DONE]
            \<and> (\<exists>a. answer (last (run_turn C q prior)) = Some a
                 \<and> (\<forall>found. research C i (retriever C i) = Inr found \<and> found \<noteq> []
                       \<longrightarrow> web_search (evidence_used a))
                 \<and> (research C i (retriever C i) = Inr []
                      \<or> research C i (retriever C i) = Inl ResearchUnavailable
                       \<longrightarrow> statesLimitation a \<and> \<not> web_search (evidence_used a))))
         \<and> (hit (retriever C i) \<and> \<not> out_of_schema C i \<longrightarrow>
              map phase (run_turn C q prior) =
                [RECEIVED, CLASSIFIED, RETRIEVED, SKIPPED, SYNTHESIZED, PERSISTED, DONE]
              \<and> (\<exists>a. answer (last (run_turn C q prior)) = Some a
                   \<and> \<not> web_search (evidence_used a)))"
proof -
  have miss: "map phase (run_turn C q prior) =
              [RECEIVED, CLASSIFIED, RETRIEVED, WEB_RESEARCHED, SYNTHESIZED, PERSISTED, DONE]
            \<and> (\<exists>a. answer (last (run_turn C q prior)) = Some a
                 \<and> (\<forall>found. research C i (retriever C i) = Inr found \<and> found \<noteq> []
                       \<longrightarrow> web_search (evidence_used a))
                 \<and> (research C i (retriever C i) = Inr []
                      \<or> research C i (retriever C i) = Inl ResearchUnavailable
                       \<longrightarrow> statesLimitation a \<and> \<not> web_search (evidence_used a)))"
    if "\<not> hit (retriever C i)"
  proof -
    from that have "\<not> hit (retriever C i) \<or> out_of_schema C i" by simp
    from run_turn_researched [OF assms this]
    show ?thesis
      by (auto simp: synthesize_def statesLimitation_def includes_str_append_right)
  qed
  have skip: "map phase (run_turn C q prior) =
                [RECEIVED, CLASSIFIED, RETRIEVED, SKIPPED, SYNTHESIZED, PERSISTED, DONE]
              \<and> (\<exists>a. answer (last (run_turn C q prior)) = Some a
                   \<and> \<not> web_search (evidence_used a))"
    if "hit (retriever C i)" "\<not> out_of_schema C i"
    using run_turn_skipped [OF assms that] by (simp add: synthesize_def)
  from miss skip show ?thesis by blast
qed

theorem escalation_invariant_witness:
  "classify (exampleCollaborators False (Inr [''https://example.org/bangsar''])) ''condos'' None = Inr 0
   \<and> \<not> hit (retriever (exampleCollaborators False (Inr [''https://example.org/bangsar''])) 0)
   \<and> map phase (run_turn (exampleCollaborators False (Inr [''https://example.org/bangsar''])) ''condos'' None)
       = [RECEIVED, CLASSIFIED, RETRIEVED, WEB_RESEARCHED, SYNTHESIZED, PERSISTED, DONE]
   \<and> (\<exists>a. answer (last (run_turn (exampleCollaborators False (Inr [''https://example.org/bangsar''])) ''condos'' None)) = Some a
        \<and> web_search (evidence_used a))
   \<and> classify (exampleCollaborators False (Inr [])) ''condos'' None = Inr 0
   \<and> \<not> hit (retriever (exampleCollaborators False (Inr [])) 0)
   \<and> (\<exists>a. answer (last (run_turn (exampleCollaborators False (Inr [])) ''condos'' None)) = Some a
        \<and> statesLimitation a \<and> \<not> web_search (evidence_used a))
   \<and> classify (exampleCollaborators True (Inl ResearchUnavailable)) ''condos'' None = Inr 0
   \<and> hit (retriever (exampleCollaborators True (Inl ResearchUnavailable)) 0)
   \<and> \<not> out_of_schema (exampleCollaborators True (Inl ResearchUnavailable)) 0
   \<and> map phase (run_turn (exampleCollaborators True (Inl ResearchUnavailable)) ''condos'' None)
       = [RECEIVED, CLASSIFIED, RETRIEVED, SKIPPED, SYNTHESIZED, PERSISTED, DONE]"
proof -
  let ?A = "exampleCollaborators False (Inr [''https://example.org/bangsar''])"
  let ?B = "exampleCollaborators False (Inr [])"
  let ?D = "exampleCollaborators True (Inl ResearchUnavailable)"
  have c: "classify (exampleCollaborators f w) ''condos'' None = Inr 0" for f w
    by (simp add: exampleCollaborators_def)
  have h: "hit (retriever (exampleCollaborators f w) 0) = f" for f w
    by (simp add: exampleCollaborators_def)
  have o: "\<not> out_of_schema (exampleCollaborators f w) 0" for f w
    by (simp add: exampleCollaborators_def)
  have r: "research (exampleCollaborators f w) 0 x = w" for f w x
    by (simp add: exampleCollaborators_def)
  from escalation_invariant [OF c [of False "Inr [''https://example.org/bangsar'']"]] h [of False] r
  have a: "map phase (run_turn ?A ''condos'' None)
       = [RECEIVED, CLASSIFIED, RETRIEVED, WEB_RESEARCHED, SYNTHESIZED, PERSISTED, DONE]
     \<and> (\<exists>a. answer (last (run_turn ?A ''condos'' None)) = Some a \<and> web_search (evidence_used a))"
    by auto
  from escalation_invariant [OF c [of False "Inr []"]] h [of False] r
  have b: "\<exists>a. answer (last (run_turn ?B ''condos'' None)) = Some a
        \<and> statesLimitation a \<and> \<not> web_search (evidence_used a)"
    by auto
  from escalation_invariant [OF c [of True "Inl ResearchUnavailable"]] h [of True] o
  have d: "map phase (run_turn ?D ''condos'' None)
       = [RECEIVED, CLASSIFIED, RETRIEVED, SKIPPED, SYNTHESIZED, PERSISTED, DONE]"
    by auto
  from a b d c h o show ?thesis by simp
qed

end
